theory Spec2Isabelle
  imports Main "HOL-Library.Word"
begin

section \<open>Values of the JavaScript program\<close>

text \<open>
  An \<open>ArrayBuffer\<close> or \<open>Uint8Array\<close> is a list of bytes, a JavaScript string is a
  list of UTF-16 code units.  A thrown value is an \<open>error\<close>: \<open>Error msg\<close> is
  \<^verbatim>\<open>new Error(msg)\<close> of the repository's own code, the other two are raised by the
  browser (\<open>DOMException\<close> carries the exception's name).
\<close>

type_synonym byte = "8 word"
type_synonym bytes = "byte list"
type_synonym char16 = "16 word"
type_synonym jsstring = "char16 list"

datatype error = Error string | TypeError | DOMException string

definition js :: "string \<Rightarrow> jsstring" where
  "js s = map (\<lambda>c. of_nat (of_char c)) s"

fun bindE :: "error + 'a \<Rightarrow> ('a \<Rightarrow> error + 'b) \<Rightarrow> error + 'b" where
  "bindE (Inl e) f = Inl e"
| "bindE (Inr x) f = f x"


section \<open>Browser built-ins used by the crypto service\<close>

subsection \<open>\<open>window.btoa\<close> and \<open>window.atob\<close>\<close>

text \<open>The alphabet: \<open>A\<close>-\<open>Z\<close>, \<open>a\<close>-\<open>z\<close>, \<open>0\<close>-\<open>9\<close>, \<open>+\<close>, \<open>/\<close>, as character codes.\<close>

definition b64enc :: "nat \<Rightarrow> nat" where
  "b64enc n =
     (if n < 26 then 65 + n
      else if n < 52 then 71 + n
      else if n < 62 then n - 4
      else if n = 62 then 43
      else 47)"

definition b64pad :: nat where
  "b64pad = 61"

text \<open>Three bytes give four characters; the last group is padded with \<open>=\<close>.\<close>

fun btoa_groups :: "nat list \<Rightarrow> nat list" where
  "btoa_groups [] = []"
| "btoa_groups [a] = [b64enc (a div 4), b64enc ((a mod 4) * 16), b64pad, b64pad]"
| "btoa_groups [a, b] =
     [b64enc (a div 4), b64enc ((a mod 4) * 16 + b div 16), b64enc ((b mod 16) * 4), b64pad]"
| "btoa_groups (a # b # c # r) =
     [b64enc (a div 4), b64enc ((a mod 4) * 16 + b div 16),
      b64enc ((b mod 16) * 4 + c div 64), b64enc (c mod 64)] @ btoa_groups r"

definition btoa :: "jsstring \<Rightarrow> error + jsstring" where
  "btoa s =
     (if list_ex (\<lambda>c. 255 < unat c) s then Inl (DOMException ''InvalidCharacterError'')
      else Inr (map of_nat (btoa_groups (map unat s))))"

text \<open>
  \<open>atob\<close> is the forgiving base64 decoder: ASCII whitespace is removed; when the length
  is a multiple of four, one or two trailing \<open>=\<close> are removed; a length of 1 modulo 4
  or a character outside the alphabet fails; the bits left over at the end are dropped.
\<close>

definition b64dec :: "nat \<Rightarrow> nat option" where
  "b64dec c =
     (if 65 \<le> c \<and> c \<le> 90 then Some (c - 65)
      else if 97 \<le> c \<and> c \<le> 122 then Some (c - 71)
      else if 48 \<le> c \<and> c \<le> 57 then Some (c + 4)
      else if c = 43 then Some 62
      else if c = 47 then Some 63
      else None)"

definition ascii_whitespace :: "nat \<Rightarrow> bool" where
  "ascii_whitespace c = (c = 9 \<or> c = 10 \<or> c = 12 \<or> c = 13 \<or> c = 32)"

fun strip_rev_padding :: "nat list \<Rightarrow> nat list" where
  "strip_rev_padding (p # q # r) =
     (if p = b64pad then (if q = b64pad then r else q # r) else p # q # r)"
| "strip_rev_padding [p] = (if p = b64pad then [] else [p])"
| "strip_rev_padding [] = []"

definition strip_padding :: "nat list \<Rightarrow> nat list" where
  "strip_padding d =
     (if length d mod 4 = 0 then rev (strip_rev_padding (rev d)) else d)"

fun atob_groups :: "nat list \<Rightarrow> nat list" where
  "atob_groups (w # x # y # z # r) =
     [w * 4 + x div 16, (x mod 16) * 16 + y div 4, (y mod 4) * 64 + z] @ atob_groups r"
| "atob_groups [w, x, y] = [w * 4 + x div 16, (x mod 16) * 16 + y div 4]"
| "atob_groups [w, x] = [w * 4 + x div 16]"
| "atob_groups [w] = []"
| "atob_groups [] = []"

definition atob :: "jsstring \<Rightarrow> error + jsstring" where
  "atob s =
     (let d = strip_padding (filter (\<lambda>c. \<not> ascii_whitespace c) (map unat s)) in
      if length d mod 4 = 1 then Inl (DOMException ''InvalidCharacterError'')
      else (case those (map b64dec d) of
              None \<Rightarrow> Inl (DOMException ''InvalidCharacterError'')
            | Some v \<Rightarrow> Inr (map of_nat (atob_groups v))))"

subsection \<open>\<open>TextEncoder\<close> and \<open>TextDecoder\<close> (UTF-8)\<close>

definition is_lead :: "nat \<Rightarrow> bool" where
  "is_lead c = (55296 \<le> c \<and> c \<le> 56319)"

definition is_trail :: "nat \<Rightarrow> bool" where
  "is_trail c = (56320 \<le> c \<and> c \<le> 57343)"

text \<open>
  The encoder first converts the string to scalar values: a surrogate pair is one
  code point, an unpaired surrogate becomes U+FFFD.
\<close>

fun to_scalars :: "nat list \<Rightarrow> nat list" where
  "to_scalars [] = []"
| "to_scalars [c] = (if is_lead c \<or> is_trail c then [65533] else [c])"
| "to_scalars (c # d # r) =
     (if is_lead c then
        (if is_trail d then (65536 + (c - 55296) * 1024 + (d - 56320)) # to_scalars r
         else 65533 # to_scalars (d # r))
      else if is_trail c then 65533 # to_scalars (d # r)
      else c # to_scalars (d # r))"

definition utf8_bytes :: "nat \<Rightarrow> nat list" where
  "utf8_bytes cp =
     (if cp < 128 then [cp]
      else if cp < 2048 then [192 + cp div 64, 128 + cp mod 64]
      else if cp < 65536 then [224 + cp div 4096, 128 + (cp div 64) mod 64, 128 + cp mod 64]
      else [240 + cp div 262144, 128 + (cp div 4096) mod 64,
            128 + (cp div 64) mod 64, 128 + cp mod 64])"

definition TextEncoder_encode :: "jsstring \<Rightarrow> bytes" where
  "TextEncoder_encode s = map of_nat (concat (map utf8_bytes (to_scalars (map unat s))))"

text \<open>
  The decoder is the state machine of the Encoding standard, in replacement mode: the
  arguments are the code point under construction, the bytes seen, the bytes needed
  and the bounds of the next continuation byte.  A byte that cannot continue a
  sequence ends it with U+FFFD and is read again as the start of the next one.
\<close>

fun utf8_decode :: "nat \<Rightarrow> nat \<Rightarrow> nat \<Rightarrow> nat \<Rightarrow> nat \<Rightarrow> nat list \<Rightarrow> nat list" where
  "utf8_decode cp seen needed lo hi [] = (if needed \<noteq> 0 then [65533] else [])"
| "utf8_decode cp seen needed lo hi (b # bs) =
     (if needed = 0 then
        (if b \<le> 127 then b # utf8_decode 0 0 0 128 191 bs
         else if 194 \<le> b \<and> b \<le> 223 then utf8_decode (b mod 32) 0 1 128 191 bs
         else if 224 \<le> b \<and> b \<le> 239 then
           utf8_decode (b mod 16) 0 2 (if b = 224 then 160 else 128)
             (if b = 237 then 159 else 191) bs
         else if 240 \<le> b \<and> b \<le> 244 then
           utf8_decode (b mod 8) 0 3 (if b = 240 then 144 else 128)
             (if b = 244 then 143 else 191) bs
         else 65533 # utf8_decode 0 0 0 128 191 bs)
      else if b < lo \<or> hi < b then 65533 # utf8_decode 0 0 0 128 191 (b # bs)
      else if seen + 1 \<noteq> needed then
        utf8_decode (cp * 64 + b mod 64) (seen + 1) needed 128 191 bs
      else (cp * 64 + b mod 64) # utf8_decode 0 0 0 128 191 bs)"

definition utf16_units :: "nat \<Rightarrow> nat list" where
  "utf16_units cp =
     (if cp < 65536 then [cp]
      else [55296 + (cp - 65536) div 1024, 56320 + (cp - 65536) mod 1024])"

text \<open>\<^verbatim>\<open>new TextDecoder()\<close> has \<open>ignoreBOM = false\<close>: a leading U+FEFF is not output.\<close>

definition strip_bom :: "nat list \<Rightarrow> nat list" where
  "strip_bom cps = (case cps of [] \<Rightarrow> [] | c # r \<Rightarrow> if c = 65279 then r else c # r)"

definition TextDecoder_decode :: "bytes \<Rightarrow> jsstring" where
  "TextDecoder_decode buf =
     map of_nat (concat (map utf16_units (strip_bom (utf8_decode 0 0 0 128 191 (map unat buf)))))"

subsection \<open>\<open>window.crypto.subtle\<close>, \<open>getRandomValues\<close> and \<open>localStorage\<close>\<close>

text \<open>
  The Web Crypto operations the service calls, each with the algorithm parameters the
  source passes.  Key handles (\<open>CryptoKey\<close>) are opaque: \<open>'sk\<close> is an ECDH private
  key, \<open>'pk\<close> an ECDH public key, \<open>'k\<close> an AES-GCM key.  A rejected promise is
  \<open>Inl\<close>.  \<open>public_of\<close> is not an operation of the browser: it names the public
  half that belongs to a private key, so that a valid key pair can be stated.
\<close>

record ('sk, 'pk, 'k) subtle =
  exportKey_raw :: "'pk \<Rightarrow> error + bytes"
  exportKey_pkcs8 :: "'sk \<Rightarrow> error + bytes"
  importKey_raw_ECDH :: "bytes \<Rightarrow> error + 'pk"
  importKey_pkcs8_ECDH :: "bytes \<Rightarrow> error + 'sk"
  importKey_raw_AES_GCM :: "bytes \<Rightarrow> error + 'k"
  deriveBits_ECDH :: "'pk \<Rightarrow> 'sk \<Rightarrow> error + bytes"
  encrypt_AES_GCM :: "bytes \<Rightarrow> 'k \<Rightarrow> bytes \<Rightarrow> error + bytes"
  decrypt_AES_GCM :: "bytes \<Rightarrow> 'k \<Rightarrow> bytes \<Rightarrow> error + bytes"
  public_of :: "'sk \<Rightarrow> 'pk"

text \<open>\<open>getRandomValues\<close> fills the array it is given; \<open>rnd i\<close> is the byte drawn for index \<open>i\<close>.\<close>

definition getRandomValues :: "(nat \<Rightarrow> byte) \<Rightarrow> nat \<Rightarrow> bytes" where
  "getRandomValues rnd n = map rnd [0..<n]"

text \<open>
  \<open>localStorage\<close>: a string-keyed store whose reads fail when access is denied and
  whose writes fail when access is denied or the quota is exceeded.
\<close>

record localStorage =
  items :: "jsstring \<rightharpoonup> jsstring"
  readable :: bool
  writable :: bool

definition getItem :: "localStorage \<Rightarrow> jsstring \<Rightarrow> error + jsstring option" where
  "getItem ls key =
     (if readable ls then Inr (items ls key) else Inl (DOMException ''SecurityError''))"

definition setItem :: "localStorage \<Rightarrow> jsstring \<Rightarrow> jsstring \<Rightarrow> error + localStorage" where
  "setItem ls key v =
     (if writable ls then Inr (ls\<lparr>items := (items ls)(key \<mapsto> v)\<rparr>)
      else Inl (DOMException ''QuotaExceededError''))"

text \<open>\<open>ArrayBuffer.prototype.slice\<close>: a negative index counts from the end, every index is clamped.\<close>

definition rel_index :: "nat \<Rightarrow> int \<Rightarrow> nat" where
  "rel_index len i = (if i < 0 then nat (max (int len + i) 0) else min (nat i) len)"

definition slice :: "bytes \<Rightarrow> int \<Rightarrow> int option \<Rightarrow> bytes" where
  "slice buf first final =
     (let len = length buf;
          f = rel_index len first;
          l = (case final of None \<Rightarrow> len | Some e \<Rightarrow> rel_index len e)
      in take (l - f) (drop f buf))"


section \<open>The crypto service (\<open>class CryptoService\<close>)\<close>

record ('sk, 'pk) keyPair_obj =
  privateKey :: 'sk
  publicKey :: "'pk option"

record ('sk, 'pk, 'k) CryptoService =
  keyPair :: "('sk, 'pk) keyPair_obj option"
  sharedKeys :: "jsstring \<rightharpoonup> 'k"

record EncryptedData =
  ciphertext :: jsstring
  iv :: jsstring
  authTag :: jsstring

definition constructor :: "('sk, 'pk, 'k) CryptoService" where
  "constructor = \<lparr>keyPair = None, sharedKeys = Map.empty\<rparr>"

text \<open>
  \<open>initialize\<close>: \<open>gen\<close> is what \<open>generateKey\<close> answers.  Every failure is replaced by
  the service's own error; the key pair is assigned only on success.
\<close>

definition initialize ::
  "error + ('sk \<times> 'pk) \<Rightarrow> ('sk, 'pk, 'k) CryptoService
     \<Rightarrow> (error + bool) \<times> ('sk, 'pk, 'k) CryptoService" where
  "initialize gen s =
     (case gen of
        Inl e \<Rightarrow> (Inl (Error ''Cryptography initialization failed''), s)
      | Inr (sk, pk) \<Rightarrow>
          (Inr True, s\<lparr>keyPair := Some \<lparr>privateKey = sk, publicKey = Some pk\<rparr>\<rparr>))"

text \<open>The loop over the bytes builds the binary string that \<open>btoa\<close> encodes.\<close>

definition arrayBufferToBase64 :: "bytes \<Rightarrow> error + jsstring" where
  "arrayBufferToBase64 buffer = btoa (map (\<lambda>b. of_nat (unat b)) buffer)"

text \<open>Storing a character code in a \<open>Uint8Array\<close> keeps its low eight bits.\<close>

definition base64ToArrayBuffer :: "jsstring \<Rightarrow> error + bytes" where
  "base64ToArrayBuffer base64 =
     bindE (atob base64) (\<lambda>binary. Inr (map (\<lambda>c. of_nat (unat c)) binary))"

text \<open>
  \<open>exportPublicKey\<close>: with a key pair whose public half is \<open>null\<close>, \<open>exportKey\<close>
  rejects with a \<open>TypeError\<close>, which the \<open>catch\<close> block throws again.
\<close>

definition exportPublicKey ::
  "('sk, 'pk, 'k) subtle \<Rightarrow> ('sk, 'pk, 'k) CryptoService \<Rightarrow> error + jsstring" where
  "exportPublicKey W s =
     (case keyPair s of
        None \<Rightarrow> Inl (Error ''Crypto not initialized. Call initialize() first.'')
      | Some kp \<Rightarrow>
          bindE (case publicKey kp of None \<Rightarrow> Inl TypeError | Some pk \<Rightarrow> exportKey_raw W pk)
            (\<lambda>exported. arrayBufferToBase64 exported))"

definition importPublicKey :: "('sk, 'pk, 'k) subtle \<Rightarrow> jsstring \<Rightarrow> error + 'pk" where
  "importPublicKey W publicKeyBase64 =
     bindE (base64ToArrayBuffer publicKeyBase64) (\<lambda>keyData. importKey_raw_ECDH W keyData)"

text \<open>
  \<open>deriveSharedKey\<close>: the cache is looked up by \<open>userId\<close> alone; on a miss the key
  is derived and stored.  An error leaves the cache as it was.
\<close>

definition deriveSharedKey ::
  "('sk, 'pk, 'k) subtle \<Rightarrow> jsstring \<Rightarrow> jsstring \<Rightarrow> ('sk, 'pk, 'k) CryptoService
     \<Rightarrow> (error + 'k) \<times> ('sk, 'pk, 'k) CryptoService" where
  "deriveSharedKey W otherUserPublicKeyBase64 userId s =
     (case keyPair s of
        None \<Rightarrow> (Inl (Error ''Crypto not initialized''), s)
      | Some kp \<Rightarrow>
          (case sharedKeys s userId of
             Some cached \<Rightarrow> (Inr cached, s)
           | None \<Rightarrow>
               (case bindE (importPublicKey W otherUserPublicKeyBase64) (\<lambda>otherPublicKey.
                     bindE (deriveBits_ECDH W otherPublicKey (privateKey kp)) (\<lambda>sharedSecret.
                     importKey_raw_AES_GCM W sharedSecret)) of
                  Inl e \<Rightarrow> (Inl e, s)
                | Inr sharedKey \<Rightarrow>
                    (Inr sharedKey, s\<lparr>sharedKeys := (sharedKeys s)(userId \<mapsto> sharedKey)\<rparr>))))"

definition encryptMessage ::
  "('sk, 'pk, 'k) subtle \<Rightarrow> (nat \<Rightarrow> byte) \<Rightarrow> jsstring \<Rightarrow> 'k \<Rightarrow> error + EncryptedData" where
  "encryptMessage W rnd plaintext sharedKey =
     (let iv0 = getRandomValues rnd 12;
          plaintextBuffer = TextEncoder_encode plaintext
      in bindE (encrypt_AES_GCM W iv0 sharedKey plaintextBuffer) (\<lambda>ciphertextBuffer.
         bindE (arrayBufferToBase64 (slice ciphertextBuffer 0 (Some (- 16)))) (\<lambda>c.
         bindE (arrayBufferToBase64 iv0) (\<lambda>i.
         bindE (arrayBufferToBase64 (slice ciphertextBuffer (- 16) None)) (\<lambda>t.
         Inr \<lparr>ciphertext = c, iv = i, authTag = t\<rparr>)))))"

text \<open>
  \<open>decryptMessage\<close>: no length is checked; the decoded ciphertext and tag are
  concatenated and handed to the primitive.  Whatever fails inside the \<open>try\<close> block,
  the same error is thrown.
\<close>

definition decryptMessage ::
  "('sk, 'pk, 'k) subtle \<Rightarrow> EncryptedData \<Rightarrow> 'k \<Rightarrow> error + jsstring" where
  "decryptMessage W encryptedData sharedKey =
     (case bindE (base64ToArrayBuffer (ciphertext encryptedData)) (\<lambda>ciphertextBuffer.
           bindE (base64ToArrayBuffer (iv encryptedData)) (\<lambda>ivBuffer.
           bindE (base64ToArrayBuffer (authTag encryptedData)) (\<lambda>authTagBuffer.
           bindE (decrypt_AES_GCM W ivBuffer sharedKey (ciphertextBuffer @ authTagBuffer))
             (\<lambda>plaintextBuffer. Inr (TextDecoder_decode plaintextBuffer))))) of
        Inl e \<Rightarrow>
          Inl (Error ''Failed to decrypt message. Message may be corrupted or key mismatch.'')
      | Inr text \<Rightarrow> Inr text)"

definition encryptForUser ::
  "('sk, 'pk, 'k) subtle \<Rightarrow> (nat \<Rightarrow> byte) \<Rightarrow> jsstring \<Rightarrow> jsstring \<Rightarrow> jsstring
     \<Rightarrow> ('sk, 'pk, 'k) CryptoService
     \<Rightarrow> (error + EncryptedData) \<times> ('sk, 'pk, 'k) CryptoService" where
  "encryptForUser W rnd plaintext otherUserPublicKey userId s =
     (case deriveSharedKey W otherUserPublicKey userId s of
        (Inl e, s') \<Rightarrow> (Inl e, s')
      | (Inr sharedKey, s') \<Rightarrow> (encryptMessage W rnd plaintext sharedKey, s'))"

definition decryptFromUser ::
  "('sk, 'pk, 'k) subtle \<Rightarrow> EncryptedData \<Rightarrow> jsstring \<Rightarrow> jsstring
     \<Rightarrow> ('sk, 'pk, 'k) CryptoService
     \<Rightarrow> (error + jsstring) \<times> ('sk, 'pk, 'k) CryptoService" where
  "decryptFromUser W encryptedData otherUserPublicKey userId s =
     (case deriveSharedKey W otherUserPublicKey userId s of
        (Inl e, s') \<Rightarrow> (Inl e, s')
      | (Inr sharedKey, s') \<Rightarrow> (decryptMessage W encryptedData sharedKey, s'))"

definition clearKeys :: "('sk, 'pk, 'k) CryptoService \<Rightarrow> ('sk, 'pk, 'k) CryptoService" where
  "clearKeys s = s\<lparr>sharedKeys := Map.empty, keyPair := None\<rparr>"

definition isInitialized :: "('sk, 'pk, 'k) CryptoService \<Rightarrow> bool" where
  "isInitialized s = (keyPair s \<noteq> None)"

text \<open>
  \<open>savePrivateKey\<close> returns nothing and never throws: its \<open>catch\<close> block only logs.
  The result is the storage afterwards.  Without a key pair, reading
  \<open>this.keyPair.privateKey\<close> is the \<open>TypeError\<close> that is caught.
\<close>

definition savePrivateKey ::
  "('sk, 'pk, 'k) subtle \<Rightarrow> jsstring \<Rightarrow> ('sk, 'pk, 'k) CryptoService \<Rightarrow> localStorage
     \<Rightarrow> error + localStorage" where
  "savePrivateKey W userId s ls =
     (case bindE (case keyPair s of None \<Rightarrow> Inl TypeError | Some kp \<Rightarrow> Inr (privateKey kp))
             (\<lambda>sk. bindE (exportKey_pkcs8 W sk) (\<lambda>exported.
              bindE (arrayBufferToBase64 exported) (\<lambda>base64.
              setItem ls (js ''privateKey_'' @ userId) base64))) of
        Inl e \<Rightarrow> Inr ls
      | Inr ls' \<Rightarrow> Inr ls')"

text \<open>
  \<open>loadPrivateKey\<close> answers \<open>false\<close> when nothing (or the empty string) is stored and
  also when anything inside the \<open>try\<close> block fails.  On success the key pair holds
  the imported private key and \<open>publicKey: null\<close>.
\<close>

definition loadPrivateKey ::
  "('sk, 'pk, 'k) subtle \<Rightarrow> jsstring \<Rightarrow> ('sk, 'pk, 'k) CryptoService \<Rightarrow> localStorage
     \<Rightarrow> (error + bool) \<times> ('sk, 'pk, 'k) CryptoService" where
  "loadPrivateKey W userId s ls =
     (case getItem ls (js ''privateKey_'' @ userId) of
        Inl e \<Rightarrow> (Inr False, s)
      | Inr None \<Rightarrow> (Inr False, s)
      | Inr (Some base64) \<Rightarrow>
          (if base64 = [] then (Inr False, s)
           else (case bindE (base64ToArrayBuffer base64) (\<lambda>keyData.
                        importKey_pkcs8_ECDH W keyData) of
                   Inl e \<Rightarrow> (Inr False, s)
                 | Inr sk \<Rightarrow>
                     (Inr True, s\<lparr>keyPair := Some \<lparr>privateKey = sk, publicKey = None\<rparr>\<rparr>))))"

section \<open>The crypto context (\<open>CryptoProvider\<close>)\<close>

text \<open>
  The provider keeps its own \<open>isInitialized\<close> flag (React state) beside the service
  singleton.  \<open>dir\<close> is the key directory behind \<^verbatim>\<open>GET /users/:id/public-key\<close>:
  the published key, or the failure of the request.
\<close>

definition getUserPublicKey :: "(jsstring \<Rightarrow> error + jsstring) \<Rightarrow> jsstring \<Rightarrow> error + jsstring" where
  "getUserPublicKey dir userId =
     (case dir userId of
        Inl err \<Rightarrow> Inl (Error ''User has not set up encryption yet'')
      | Inr pubKey \<Rightarrow> Inr pubKey)"

text \<open>\<open>encryptMessage\<close> of the provider: the guard is outside the \<open>try\<close>; the \<open>catch\<close> rethrows.\<close>

definition CryptoProvider_encryptMessage ::
  "('sk, 'pk, 'k) subtle \<Rightarrow> (nat \<Rightarrow> byte) \<Rightarrow> (jsstring \<Rightarrow> error + jsstring) \<Rightarrow> bool
     \<Rightarrow> jsstring \<Rightarrow> jsstring \<Rightarrow> ('sk, 'pk, 'k) CryptoService
     \<Rightarrow> (error + EncryptedData) \<times> ('sk, 'pk, 'k) CryptoService" where
  "CryptoProvider_encryptMessage W rnd dir initialized plaintext recipientId s =
     (if \<not> initialized then (Inl (Error ''Crypto not initialized''), s)
      else (case getUserPublicKey dir recipientId of
              Inl e \<Rightarrow> (Inl e, s)
            | Inr recipientPublicKey \<Rightarrow>
                encryptForUser W rnd plaintext recipientPublicKey recipientId s))"

definition decryption_failed :: jsstring where
  "decryption_failed = js ''[Decryption failed: Message may be corrupted]''"

text \<open>
  \<open>decryptMessage\<close> of the provider: the guard is outside the \<open>try\<close> and throws;
  everything thrown inside the \<open>try\<close> is turned into the placeholder string.
\<close>

definition CryptoProvider_decryptMessage ::
  "('sk, 'pk, 'k) subtle \<Rightarrow> (jsstring \<Rightarrow> error + jsstring) \<Rightarrow> bool
     \<Rightarrow> EncryptedData \<Rightarrow> jsstring \<Rightarrow> ('sk, 'pk, 'k) CryptoService
     \<Rightarrow> (error + jsstring) \<times> ('sk, 'pk, 'k) CryptoService" where
  "CryptoProvider_decryptMessage W dir initialized encryptedData senderId s =
     (if \<not> initialized then (Inl (Error ''Crypto not initialized''), s)
      else (case getUserPublicKey dir senderId of
              Inl e \<Rightarrow> (Inr decryption_failed, s)
            | Inr senderPublicKey \<Rightarrow>
                (case decryptFromUser W encryptedData senderPublicKey senderId s of
                   (Inl e, s') \<Rightarrow> (Inr decryption_failed, s')
                 | (Inr decrypted, s') \<Rightarrow> (Inr decrypted, s'))))"

section \<open>Sending a message (\<open>handleSend\<close> of the chat page)\<close>

text \<open>\<open>String.prototype.trim\<close> removes white space and line terminators at both ends.\<close>

definition js_whitespace :: "char16 \<Rightarrow> bool" where
  "js_whitespace c =
     (let n = unat c in
      (9 \<le> n \<and> n \<le> 13) \<or> n = 32 \<or> n = 160 \<or> n = 5760 \<or> (8192 \<le> n \<and> n \<le> 8202)
      \<or> n = 8232 \<or> n = 8233 \<or> n = 8239 \<or> n = 8287 \<or> n = 12288 \<or> n = 65279)"

definition trim :: "jsstring \<Rightarrow> jsstring" where
  "trim s = rev (dropWhile js_whitespace (rev (dropWhile js_whitespace s)))"

text \<open>A string or \<open>null\<close> in a condition: \<open>null\<close> and the empty string are falsy.\<close>

definition truthy :: "jsstring option \<Rightarrow> bool" where
  "truthy v = (case v of None \<Rightarrow> False | Some str \<Rightarrow> str \<noteq> [])"

record Contact =
  userId :: "jsstring option"

record MessagePayload =
  conversationId :: "jsstring option"
  msg_text :: jsstring
  encryptedData :: "jsstring option"
  msg_iv :: "jsstring option"
  msg_authTag :: "jsstring option"
  isEncrypted :: bool
  senderId :: "jsstring option"

definition plain_payload :: "jsstring option \<Rightarrow> jsstring \<Rightarrow> jsstring option \<Rightarrow> MessagePayload" where
  "plain_payload activeId trimmed uid =
     \<lparr>conversationId = activeId, msg_text = trimmed, encryptedData = None, msg_iv = None,
      msg_authTag = None, isEncrypted = False, senderId = uid\<rparr>"

definition canEncrypt :: "bool \<Rightarrow> Contact option \<Rightarrow> bool" where
  "canEncrypt isCryptoInitialized activeContact =
     (isCryptoInitialized \<and>
      (case activeContact of None \<Rightarrow> False | Some contact \<Rightarrow> truthy (userId contact)))"

text \<open>\<open>activeContact.userId\<close>, read only when \<open>canEncrypt\<close> holds.\<close>

definition recipient :: "Contact option \<Rightarrow> jsstring" where
  "recipient activeContact =
     (case activeContact of
        None \<Rightarrow> []
      | Some contact \<Rightarrow> (case userId contact of None \<Rightarrow> [] | Some u \<Rightarrow> u))"

text \<open>
  \<open>handleSend\<close>: the result is the payload handed to \<open>sendMessage\<close> (\<open>None\<close> when the
  handler returns before sending) and the crypto service afterwards.  Both the inner
  \<open>catch\<close> and the branch without encryption build the plaintext payload.
\<close>

definition handleSend ::
  "('sk, 'pk, 'k) subtle \<Rightarrow> (nat \<Rightarrow> byte) \<Rightarrow> (jsstring \<Rightarrow> error + jsstring)
     \<Rightarrow> jsstring \<Rightarrow> jsstring option \<Rightarrow> bool \<Rightarrow> bool \<Rightarrow> bool \<Rightarrow> Contact option
     \<Rightarrow> jsstring option \<Rightarrow> ('sk, 'pk, 'k) CryptoService
     \<Rightarrow> MessagePayload option \<times> ('sk, 'pk, 'k) CryptoService" where
  "handleSend W rnd dir messageText activeId isConnected activeGroup isCryptoInitialized
      activeContact uid s =
     (if trim messageText = [] \<or> \<not> truthy activeId \<or> \<not> isConnected \<or> activeGroup
      then (None, s)
      else if canEncrypt isCryptoInitialized activeContact then
        (case CryptoProvider_encryptMessage W rnd dir isCryptoInitialized (trim messageText)
                (recipient activeContact) s of
           (Inr encrypted, s') \<Rightarrow>
             (Some \<lparr>conversationId = activeId, msg_text = js ''[Encrypted]'',
                    encryptedData = Some (ciphertext encrypted), msg_iv = Some (iv encrypted),
                    msg_authTag = Some (authTag encrypted), isEncrypted = True,
                    senderId = uid\<rparr>, s')
         | (Inl encryptError, s') \<Rightarrow> (Some (plain_payload activeId (trim messageText) uid), s'))
      else (Some (plain_payload activeId (trim messageText) uid), s))"

section \<open>Concurrent calls of the provider's \<open>encryptMessage\<close>\<close>







section \<open>What the platform is taken to do\<close>

unbundle bit_operations_syntax

text \<open>
  The Web Crypto primitives are not code of the repository.  What the properties below
  need from them is stated as predicates on the platform, and every property names
  the predicates it rests on.

  \<open>ecdh_ok\<close>: a public key can be exported in raw form and imported again; the bits
  derived from one's private key and the other's public key are the same on both
  sides, and they can be imported as an AES-GCM key.
\<close>

definition ecdh_ok :: "('sk, 'pk, 'k) subtle \<Rightarrow> bool" where
  "ecdh_ok W =
     ((\<forall>a. \<exists>raw. exportKey_raw W (public_of W a) = Inr raw
                  \<and> importKey_raw_ECDH W raw = Inr (public_of W a))
      \<and> (\<forall>a b. \<exists>secret k. deriveBits_ECDH W (public_of W b) a = Inr secret
                  \<and> deriveBits_ECDH W (public_of W a) b = Inr secret
                  \<and> importKey_raw_AES_GCM W secret = Inr k))"

text \<open>\<open>pkcs8_ok\<close>: a private key can be exported (to a non-empty encoding) and imported again.\<close>

definition pkcs8_ok :: "('sk, 'pk, 'k) subtle \<Rightarrow> bool" where
  "pkcs8_ok W =
     (\<forall>sk. \<exists>der. der \<noteq> [] \<and> exportKey_pkcs8 W sk = Inr der
                   \<and> importKey_pkcs8_ECDH W der = Inr sk)"

text \<open>
  \<open>aead_ok\<close>: AES-GCM encryption succeeds, its output is 16 bytes longer than the
  plaintext, and decryption with the same key and IV returns the plaintext.
\<close>

definition aead_ok :: "('sk, 'pk, 'k) subtle \<Rightarrow> bool" where
  "aead_ok W =
     (\<forall>i k p. \<exists>c. encrypt_AES_GCM W i k p = Inr c \<and> length c = length p + 16
                  \<and> decrypt_AES_GCM W i k c = Inr p)"

text \<open>
  \<open>aead_detects\<close>: AES-GCM decryption rejects an output of the encryption in which one
  bit, in the ciphertext or in the tag, has been flipped.
\<close>

definition flip_bit :: "bytes \<Rightarrow> nat \<Rightarrow> nat \<Rightarrow> bytes" where
  "flip_bit buf n j = buf[n := (buf ! n) XOR (push_bit j 1)]"

definition aead_detects :: "('sk, 'pk, 'k) subtle \<Rightarrow> bool" where
  "aead_detects W =
     (\<forall>i k p c n j. encrypt_AES_GCM W i k p = Inr c \<longrightarrow> n < length c \<longrightarrow> j < 8 \<longrightarrow>
        (\<exists>e. decrypt_AES_GCM W i k (flip_bit c n j) = Inl e))"


section \<open>Vocabulary of the properties\<close>

text \<open>The one error \<open>decryptMessage\<close> throws.\<close>

definition decrypt_error :: error where
  "decrypt_error = Error ''Failed to decrypt message. Message may be corrupted or key mismatch.''"

text \<open>
  The canonical base64 text of a buffer (what \<open>arrayBufferToBase64\<close> returns), and
  the six-bit values it spells.
\<close>

fun sextets :: "nat list \<Rightarrow> nat list" where
  "sextets [] = []"
| "sextets [a] = [a div 4, (a mod 4) * 16]"
| "sextets [a, b] = [a div 4, (a mod 4) * 16 + b div 16, (b mod 16) * 4]"
| "sextets (a # b # c # r) =
     [a div 4, (a mod 4) * 16 + b div 16, (b mod 16) * 4 + c div 64, c mod 64] @ sextets r"

definition base64 :: "bytes \<Rightarrow> jsstring" where
  "base64 buf = map of_nat (btoa_groups (map unat buf))"

text \<open>
  Scalar values are the code points outside the surrogate range.  A string is
  well formed when every surrogate in it is part of a pair.
\<close>

definition scalar :: "nat \<Rightarrow> bool" where
  "scalar cp = (cp < 1114112 \<and> \<not> (55296 \<le> cp \<and> cp \<le> 57343))"

fun wf16 :: "nat list \<Rightarrow> bool" where
  "wf16 [] = True"
| "wf16 [c] = (\<not> is_lead c \<and> \<not> is_trail c)"
| "wf16 (c # d # r) =
     (if is_lead c then is_trail d \<and> wf16 r else \<not> is_trail c \<and> wf16 (d # r))"

definition well_formed :: "jsstring \<Rightarrow> bool" where
  "well_formed s = wf16 (map unat s)"

definition starts_with_bom :: "jsstring \<Rightarrow> bool" where
  "starts_with_bom s = (case s of [] \<Rightarrow> False | c # r \<Rightarrow> c = 65279)"





section \<open>A small platform and example data\<close>

text \<open>
  A platform small enough to compute with: private keys are bytes, the public key of
  \<open>a\<close> is \<open>5 a mod 251\<close>, the shared secret is the product of one side's private key
  and the other's public key modulo 251, encryption is XOR with the key's first byte,
  and the 16-byte tag mixes key, IV and ciphertext.  It satisfies the four predicates
  above.
\<close>

definition xor_all :: "bytes \<Rightarrow> byte" where
  "xor_all bs = foldr (\<lambda>a b. a XOR b) bs 0"

definition key_byte :: "bytes \<Rightarrow> byte" where
  "key_byte k = (case k of [] \<Rightarrow> 0 | b # r \<Rightarrow> b)"

definition toy_tag :: "bytes \<Rightarrow> bytes \<Rightarrow> bytes \<Rightarrow> bytes" where
  "toy_tag k i c = (key_byte k XOR xor_all i XOR xor_all c) # replicate 15 (key_byte k)"

definition toy_encrypt :: "bytes \<Rightarrow> bytes \<Rightarrow> bytes \<Rightarrow> error + bytes" where
  "toy_encrypt i k p = (let c = map (\<lambda>b. b XOR key_byte k) p in Inr (c @ toy_tag k i c))"

definition toy_decrypt :: "bytes \<Rightarrow> bytes \<Rightarrow> bytes \<Rightarrow> error + bytes" where
  "toy_decrypt i k x =
     (let n = length x; c = take (n - 16) x; t = drop (n - 16) x
      in if n < 16 \<or> t \<noteq> toy_tag k i c then Inl (DOMException ''OperationError'')
         else Inr (map (\<lambda>b. b XOR key_byte k) c))"

definition toy :: "(byte, nat, bytes) subtle" where
  "toy =
     \<lparr>exportKey_raw = (\<lambda>pk. Inr [4, of_nat pk]),
      exportKey_pkcs8 = (\<lambda>sk. Inr [sk]),
      importKey_raw_ECDH = (\<lambda>raw.
        case raw of
          [b, x] \<Rightarrow> if b = 4 then Inr (unat x) else Inl (DOMException ''DataError'')
        | _ \<Rightarrow> Inl (DOMException ''DataError'')),
      importKey_pkcs8_ECDH = (\<lambda>der.
        case der of [b] \<Rightarrow> Inr b | _ \<Rightarrow> Inl (DOMException ''DataError'')),
      importKey_raw_AES_GCM = (\<lambda>raw.
        if length raw = 16 \<or> length raw = 24 \<or> length raw = 32 then Inr raw
        else Inl (DOMException ''DataError'')),
      deriveBits_ECDH = (\<lambda>pk sk. Inr (replicate 32 (of_nat ((pk * unat sk) mod 251)))),
      encrypt_AES_GCM = toy_encrypt,
      decrypt_AES_GCM = toy_decrypt,
      public_of = (\<lambda>sk. (5 * unat sk) mod 251)\<rparr>"

text \<open>
  Alice (private key 3, public key 15), Bob (7 and 35) and Carol (11 and 55).  Alice
  and Bob share the key 105, Alice and Carol the key 165.  The published keys are
  \<open>BA8=\<close> (Alice), \<open>BCM=\<close> (Bob) and \<open>BDc=\<close> (Carol).
\<close>

definition rnd0 :: "nat \<Rightarrow> byte" where
  "rnd0 n = of_nat n"

definition alice :: "(byte, nat, bytes) CryptoService" where
  "alice = \<lparr>keyPair = Some \<lparr>privateKey = 3, publicKey = Some 15\<rparr>, sharedKeys = Map.empty\<rparr>"

definition bob :: "(byte, nat, bytes) CryptoService" where
  "bob = \<lparr>keyPair = Some \<lparr>privateKey = 7, publicKey = Some 35\<rparr>, sharedKeys = Map.empty\<rparr>"

definition key_ab :: bytes where
  "key_ab = replicate 32 105"



definition directory0 :: "jsstring \<Rightarrow> error + jsstring" where
  "directory0 u =
     (if u = js ''alice'' then Inr (js ''BA8='')
      else if u = js ''bob'' then Inr (js ''BCM='')
      else Inl (Error ''Request failed with status code 404''))"

definition dave :: "Contact option" where
  "dave = Some \<lparr>userId = Some (js ''dave'')\<rparr>"

text \<open>
  Envelopes.  \<open>hi_envelope\<close> is \<open>hi\<close> encrypted under Alice and Bob's key;
  \<open>tampered_envelope\<close> differs from it in the lowest bit of the first tag byte;
  \<open>absorbed_envelope\<close> differs from it in one bit of the last character before the
  padding of the authTag field (\<open>Q\<close>, 0x51, becomes \<open>S\<close>, 0x53);
  \<open>shifted_envelope\<close> has its last ciphertext byte moved in front of the tag;
  \<open>bom_envelope\<close> is U+FEFF \<open>h\<close> \<open>i\<close> and \<open>surrogate_envelope\<close> the unpaired surrogate
  U+D83D, both encrypted under Alice and Bob's key;
  \<open>stale_envelope\<close> is \<open>hi\<close> encrypted under Alice and Carol's key.
\<close>

definition hi_envelope :: EncryptedData where
  "hi_envelope =
     \<lparr>ciphertext = js ''AQA='', iv = js ''AAECAwQFBgcICQoL'',
      authTag = js ''aGlpaWlpaWlpaWlpaWlpaQ==''\<rparr>"

definition tampered_envelope :: EncryptedData where
  "tampered_envelope =
     \<lparr>ciphertext = js ''AQA='', iv = js ''AAECAwQFBgcICQoL'',
      authTag = js ''aWlpaWlpaWlpaWlpaWlpaQ==''\<rparr>"

definition absorbed_envelope :: EncryptedData where
  "absorbed_envelope =
     \<lparr>ciphertext = js ''AQA='', iv = js ''AAECAwQFBgcICQoL'',
      authTag = js ''aGlpaWlpaWlpaWlpaWlpaS==''\<rparr>"

definition shifted_envelope :: EncryptedData where
  "shifted_envelope =
     \<lparr>ciphertext = js ''AQ=='', iv = js ''AAECAwQFBgcICQoL'',
      authTag = js ''AGhpaWlpaWlpaWlpaWlpaWk=''\<rparr>"

definition bom_envelope :: EncryptedData where
  "bom_envelope =
     \<lparr>ciphertext = js ''htLWAQA='', iv = js ''AAECAwQFBgcICQoL'',
      authTag = js ''6mlpaWlpaWlpaWlpaWlpaQ==''\<rparr>"

definition surrogate_envelope :: EncryptedData where
  "surrogate_envelope =
     \<lparr>ciphertext = js ''htbU'', iv = js ''AAECAwQFBgcICQoL'',
      authTag = js ''7WlpaWlpaWlpaWlpaWlpaQ==''\<rparr>"



text \<open>Three states of \<open>localStorage\<close>.\<close>

definition empty_storage :: localStorage where
  "empty_storage = \<lparr>items = Map.empty, readable = True, writable = True\<rparr>"

definition full_storage :: localStorage where
  "full_storage = \<lparr>items = Map.empty, readable = True, writable = False\<rparr>"

definition locked_storage :: localStorage where
  "locked_storage =
     \<lparr>items = [js ''privateKey_u1'' \<mapsto> js ''Aw==''], readable = False, writable = True\<rparr>"

section \<open>Properties of the built-ins\<close>

subsection \<open>Base64 round trip\<close>

lemma b64dec_enc: "n < 64 \<Longrightarrow> b64dec (b64enc n) = Some n"
  by (auto simp add: b64enc_def b64dec_def)

lemma b64enc_not_pad: "n < 64 \<Longrightarrow> b64enc n \<noteq> b64pad"
  by (auto simp add: b64enc_def b64pad_def)

lemma b64enc_not_ws: "n < 64 \<Longrightarrow> \<not> ascii_whitespace (b64enc n)"
  by (auto simp add: b64enc_def ascii_whitespace_def)

lemma b64enc_lt: "n < 64 \<Longrightarrow> b64enc n < 128"
  by (auto simp add: b64enc_def)

lemma sextets_lt: "\<forall>b\<in>set bs. b < 256 \<Longrightarrow> \<forall>v\<in>set (sextets bs). v < 64"
  by (induction bs rule: sextets.induct) auto

lemma atob_groups_sextets: "\<forall>b\<in>set bs. b < 256 \<Longrightarrow> atob_groups (sextets bs) = bs"
  by (induction bs rule: sextets.induct) auto

lemma length_sextets: "length (sextets bs) mod 4 \<noteq> 1"
  by (induction bs rule: sextets.induct) auto

lemma those_b64dec: "\<forall>v\<in>set vs. v < 64 \<Longrightarrow> those (map b64dec (map b64enc vs)) = Some vs"
  by (induction vs) (auto simp add: b64dec_enc)

lemma length_btoa_groups: "length (btoa_groups bs) mod 4 = 0"
  by (induction bs rule: btoa_groups.induct) auto

lemma btoa_groups_Nil: "(btoa_groups bs = []) = (bs = [])"
  by (cases bs rule: btoa_groups.cases) auto

lemma strip_rev_padding_append:
  "2 \<le> length xs \<Longrightarrow> strip_rev_padding (xs @ ys) = strip_rev_padding xs @ ys"
  by (cases xs rule: strip_rev_padding.cases) auto

lemma strip_btoa_groups:
  "\<forall>b\<in>set bs. b < 256 \<Longrightarrow>
   rev (strip_rev_padding (rev (btoa_groups bs))) = map b64enc (sextets bs)"
proof (induction bs rule: btoa_groups.induct)
  case (4 a b c r)
  show ?case
  proof (cases "r = []")
    case True
    have "c mod 64 < 64" by simp
    then show ?thesis using True b64enc_not_pad[of "c mod 64"] by simp
  next
    case False
    then have "btoa_groups r \<noteq> []" by (simp add: btoa_groups_Nil)
    moreover have "length (btoa_groups r) mod 4 = 0" by (rule length_btoa_groups)
    ultimately have "2 \<le> length (rev (btoa_groups r))"
      by (cases "btoa_groups r" rule: strip_rev_padding.cases) auto
    then show ?thesis using 4 by (simp add: strip_rev_padding_append)
  qed
next
  case (2 a)
  have "a mod 4 * 16 < 64" by arith
  then show ?case using b64enc_not_pad by simp
next
  case (3 a b)
  have "b mod 16 * 4 < 64" by arith
  then show ?case using b64enc_not_pad by simp
qed simp

lemma filter_ws_btoa_groups:
  "\<forall>b\<in>set bs. b < 256 \<Longrightarrow>
   filter (\<lambda>c. \<not> ascii_whitespace c) (btoa_groups bs) = btoa_groups bs"
proof (induction bs rule: btoa_groups.induct)
  case (4 a b c r)
  have "a div 4 < 64" "a mod 4 * 16 + b div 16 < 64" "b mod 16 * 4 + c div 64 < 64" "c mod 64 < 64"
    using 4(2) by auto
  then show ?case using 4 by (simp add: b64enc_not_ws)
next
  case (2 a)
  have "a div 4 < 64" "a mod 4 * 16 < 64" using 2 by auto
  then show ?case by (simp add: b64enc_not_ws) (simp add: ascii_whitespace_def b64pad_def)
next
  case (3 a b)
  have "a div 4 < 64" "a mod 4 * 16 + b div 16 < 64" "b mod 16 * 4 < 64" using 3 by auto
  then show ?case by (simp add: b64enc_not_ws) (simp add: ascii_whitespace_def b64pad_def)
qed simp


lemma btoa_groups_lt: "\<forall>b\<in>set bs. b < 256 \<Longrightarrow> \<forall>c\<in>set (btoa_groups bs). c < 128"
proof (induction bs rule: btoa_groups.induct)
  case (4 a b c r)
  have "a div 4 < 64" "a mod 4 * 16 + b div 16 < 64" "b mod 16 * 4 + c div 64 < 64" "c mod 64 < 64"
    using 4(2) by auto
  then show ?case using 4 by (simp add: b64enc_lt)
next
  case (2 a)
  have "a div 4 < 64" "a mod 4 * 16 < 64" using 2 by auto
  then show ?case by (simp add: b64enc_lt b64pad_def)
next
  case (3 a b)
  have "a div 4 < 64" "a mod 4 * 16 + b div 16 < 64" "b mod 16 * 4 < 64" using 3 by auto
  then show ?case by (simp add: b64enc_lt b64pad_def)
qed simp

lemma unat_byte_lt: "\<forall>b\<in>set (map unat (buf :: bytes)). b < 256"
proof
  fix b assume "b \<in> set (map unat buf)"
  then obtain w :: byte where "b = unat w" by auto
  then show "b < 256" using unsigned_less[of w, where 'a = nat] by simp
qed

lemma map_unat_of_nat16:
  "\<forall>c\<in>set xs. c < 128 \<Longrightarrow> map unat (map of_nat xs :: char16 list) = xs"
  by (induction xs) (auto simp add: unat_of_nat)

lemma atob_btoa_groups:
  assumes "\<forall>b\<in>set bs. b < 256"
  shows "atob (map of_nat (btoa_groups bs)) = Inr (map of_nat bs)"
proof -
  let ?d = "btoa_groups bs"
  have u: "map unat (map of_nat ?d :: char16 list) = ?d"
    using assms by (intro map_unat_of_nat16 btoa_groups_lt)
  have s: "strip_padding (filter (\<lambda>c. \<not> ascii_whitespace c) ?d) = map b64enc (sextets bs)"
    using assms by (simp add: filter_ws_btoa_groups strip_padding_def length_btoa_groups strip_btoa_groups)
  have l: "length (map b64enc (sextets bs)) mod 4 \<noteq> 1"
    using length_sextets[of bs] by simp
  have t: "those (map b64dec (map b64enc (sextets bs))) = Some (sextets bs)"
    using assms by (intro those_b64dec sextets_lt)
  show ?thesis
    unfolding atob_def u s Let_def using l t assms by (simp add: atob_groups_sextets)
qed

lemma unat_ucast_byte: "unat (ucast (b :: byte) :: char16) = unat b"
  using unsigned_less[of b, where 'a = nat] by (simp add: unsigned_ucast_eq take_bit_eq_mod)

lemma ucast_ucast_byte: "(ucast (ucast (b :: byte) :: char16) :: byte) = b"
  by (simp add: ucast_up_ucast_id is_up)

lemma arrayBufferToBase64_eq: "arrayBufferToBase64 buf = Inr (base64 buf)"
proof -
  have "unat b \<le> 255" for b :: byte
    using unsigned_less[of b, where 'a = nat] by simp
  then have "\<not> list_ex (\<lambda>c. 255 < unat c) (map (\<lambda>b. of_nat (unat b) :: char16) buf)"
    by (simp add: list_ex_iff unat_ucast_byte not_less)
  moreover have "(unat \<circ> (ucast :: byte \<Rightarrow> char16)) = unat"
    by (rule ext) (simp add: unat_ucast_byte)
  ultimately show ?thesis by (simp add: arrayBufferToBase64_def btoa_def base64_def)
qed

lemma base64ToArrayBuffer_base64: "base64ToArrayBuffer (base64 buf) = Inr buf"
proof -
  have "atob (base64 buf) = Inr (map of_nat (map unat buf))"
    unfolding base64_def by (rule atob_btoa_groups) (rule unat_byte_lt)
  then show ?thesis by (simp add: base64ToArrayBuffer_def ucast_ucast_byte comp_def)
qed

subsection \<open>UTF-8 round trip\<close>

lemma mod_plus: "x < m \<Longrightarrow> (k * m + x) mod m = (x::nat)"
  by simp

lemma decode2:
  assumes "2 \<le> d" "d < 32" "m < 64"
  shows "utf8_decode 0 0 0 128 191 ((192 + d) # (128 + m) # rest)
         = (d * 64 + m) # utf8_decode 0 0 0 128 191 rest"
proof -
  have m0: "(192 + d) mod 32 = d" using mod_plus[of d 32 6] assms by simp
  have m1: "(128 + m) mod 64 = m" using mod_plus[of m 64 2] assms by simp
  have "utf8_decode 0 0 0 128 191 ((192 + d) # (128 + m) # rest)
        = utf8_decode d 0 1 128 191 ((128 + m) # rest)"
    using assms by (simp add: m0 del: mod_add_self1)
  also have "\<dots> = (d * 64 + m) # utf8_decode 0 0 0 128 191 rest"
    using assms by (simp add: m1 del: mod_add_self1)
  finally show ?thesis .
qed

lemma decode3:
  assumes "e < 16" "d < 64" "m < 64" "e = 0 \<longrightarrow> 32 \<le> d" "e = 13 \<longrightarrow> d < 32"
  shows "utf8_decode 0 0 0 128 191 ((224 + e) # (128 + d) # (128 + m) # rest)
         = ((e * 64 + d) * 64 + m) # utf8_decode 0 0 0 128 191 rest"
proof -
  have m0: "(224 + e) mod 16 = e" using mod_plus[of e 16 14] assms by simp
  have m1: "(128 + d) mod 64 = d" using mod_plus[of d 64 2] assms by simp
  have m2: "(128 + m) mod 64 = m" using mod_plus[of m 64 2] assms by simp
  have "utf8_decode 0 0 0 128 191 ((224 + e) # (128 + d) # (128 + m) # rest)
        = utf8_decode e 0 2 (if e = 0 then 160 else 128) (if e = 13 then 159 else 191)
            ((128 + d) # (128 + m) # rest)"
    using assms by (simp add: m0 del: mod_add_self1)
  also have "\<dots> = utf8_decode (e * 64 + d) 1 2 128 191 ((128 + m) # rest)"
    using assms by (auto simp add: m1 simp del: mod_add_self1)
  also have "\<dots> = ((e * 64 + d) * 64 + m) # utf8_decode 0 0 0 128 191 rest"
    using assms by (simp add: m2 del: mod_add_self1)
  finally show ?thesis .
qed

lemma decode4:
  assumes "f < 5" "e < 64" "d < 64" "m < 64" "f = 0 \<longrightarrow> 16 \<le> e" "f = 4 \<longrightarrow> e < 16"
  shows "utf8_decode 0 0 0 128 191 ((240 + f) # (128 + e) # (128 + d) # (128 + m) # rest)
         = (((f * 64 + e) * 64 + d) * 64 + m) # utf8_decode 0 0 0 128 191 rest"
proof -
  have m0: "(240 + f) mod 8 = f" using mod_plus[of f 8 30] assms by simp
  have m1: "(128 + e) mod 64 = e" using mod_plus[of e 64 2] assms by simp
  have m2: "(128 + d) mod 64 = d" using mod_plus[of d 64 2] assms by simp
  have m3: "(128 + m) mod 64 = m" using mod_plus[of m 64 2] assms by simp
  have "utf8_decode 0 0 0 128 191 ((240 + f) # (128 + e) # (128 + d) # (128 + m) # rest)
        = utf8_decode f 0 3 (if f = 0 then 144 else 128) (if f = 4 then 143 else 191)
            ((128 + e) # (128 + d) # (128 + m) # rest)"
    using assms by (simp add: m0 del: mod_add_self1)
  also have "\<dots> = utf8_decode (f * 64 + e) 1 3 128 191 ((128 + d) # (128 + m) # rest)"
    using assms by (auto simp add: m1 simp del: mod_add_self1)
  also have "\<dots> = utf8_decode ((f * 64 + e) * 64 + d) 2 3 128 191 ((128 + m) # rest)"
    using assms by (simp add: m2 del: mod_add_self1)
  also have "\<dots> = (((f * 64 + e) * 64 + d) * 64 + m) # utf8_decode 0 0 0 128 191 rest"
    using assms by (simp add: m3 del: mod_add_self1)
  finally show ?thesis .
qed


lemma digits64: "(cp::nat) = (cp div 64) * 64 + cp mod 64"
  by simp

lemma div4096: "(cp::nat) div 4096 = cp div 64 div 64"
  by (simp add: div_mult2_eq)

lemma div262144: "(cp::nat) div 262144 = cp div 64 div 64 div 64"
  by (simp add: div_mult2_eq)

lemma utf8_decode_bytes:
  assumes "scalar cp"
  shows "utf8_decode 0 0 0 128 191 (utf8_bytes cp @ rest) = cp # utf8_decode 0 0 0 128 191 rest"
proof -
  define m where "m = cp mod 64"
  define c1 where "c1 = cp div 64"
  define d where "d = c1 mod 64"
  define c2 where "c2 = c1 div 64"
  define e where "e = c2 mod 64"
  define f where "f = c2 div 64"
  have cp: "cp = c1 * 64 + m" and c1: "c1 = c2 * 64 + d" and c2: "c2 = f * 64 + e"
    by (simp_all add: m_def c1_def d_def c2_def e_def f_def)
  have lt: "m < 64" "d < 64" "e < 64"
    by (simp_all add: m_def d_def e_def)
  have ran: "cp < 1114112" "\<not> (55296 \<le> cp \<and> cp \<le> 57343)"
    using assms by (simp_all add: scalar_def)
  consider (a) "cp < 128" | (b) "128 \<le> cp" "cp < 2048" | (c) "2048 \<le> cp" "cp < 65536"
    | (d) "65536 \<le> cp" by linarith
  then show ?thesis
  proof cases
    case a
    then show ?thesis by (simp add: utf8_bytes_def)
  next
    case b
    have "2 \<le> c1" "c1 < 32" using b cp lt by linarith+
    then have dec: "utf8_decode 0 0 0 128 191 ((192 + c1) # (128 + m) # rest)
        = (c1 * 64 + m) # utf8_decode 0 0 0 128 191 rest"
      using lt by (intro decode2)
    have ub: "utf8_bytes cp = [192 + c1, 128 + m]"
      using b by (simp add: utf8_bytes_def c1_def m_def)
    show ?thesis by (simp only: ub append_Cons append_Nil dec cp[symmetric])
  next
    case c
    have r: "c2 < 16" "c2 = 0 \<longrightarrow> 32 \<le> d" "c2 = 13 \<longrightarrow> d < 32" using c ran cp c1 lt by linarith+
    then have dec: "utf8_decode 0 0 0 128 191 ((224 + c2) # (128 + d) # (128 + m) # rest)
        = ((c2 * 64 + d) * 64 + m) # utf8_decode 0 0 0 128 191 rest"
      using lt by (intro decode3)
    have ub: "utf8_bytes cp = [224 + c2, 128 + d, 128 + m]"
      using c by (simp add: utf8_bytes_def div4096 c2_def c1_def d_def m_def)
    show ?thesis by (simp only: ub append_Cons append_Nil dec c1[symmetric] cp[symmetric])
  next
    case d
    have r: "f < 5" "f = 0 \<longrightarrow> 16 \<le> e" "f = 4 \<longrightarrow> e < 16" using d ran cp c1 c2 lt by linarith+
    then have dec: "utf8_decode 0 0 0 128 191 ((240 + f) # (128 + e) # (128 + d) # (128 + m) # rest)
        = (((f * 64 + e) * 64 + d) * 64 + m) # utf8_decode 0 0 0 128 191 rest"
      using lt by (intro decode4)
    have ub: "utf8_bytes cp = [240 + f, 128 + e, 128 + d, 128 + m]"
      using d by (simp add: utf8_bytes_def div4096 div262144 c2_def c1_def d_def e_def f_def m_def)
    show ?thesis
      by (simp only: ub append_Cons append_Nil dec c2[symmetric] c1[symmetric] cp[symmetric])
  qed
qed


lemma pair_scalar:
  assumes "is_lead c" "is_trail d"
  shows "scalar (65536 + (c - 55296) * 1024 + (d - 56320))"
    and "utf16_units (65536 + (c - 55296) * 1024 + (d - 56320)) = [c, d]"
proof -
  define h where "h = c - 55296"
  define l where "l = d - 56320"
  have h: "h < 1024" "c = 55296 + h" and l: "l < 1024" "d = 56320 + l"
    using assms unfolding is_lead_def is_trail_def h_def l_def by linarith+
  show "scalar (65536 + (c - 55296) * 1024 + (d - 56320))"
    unfolding h_def[symmetric] l_def[symmetric] scalar_def using h l by linarith
  have "(h * 1024 + l) div 1024 = h" "(h * 1024 + l) mod 1024 = l"
    using l by simp_all
  then show "utf16_units (65536 + (c - 55296) * 1024 + (d - 56320)) = [c, d]"
    unfolding h_def[symmetric] l_def[symmetric] using h l by (simp add: utf16_units_def)
qed

lemma unit_scalar:
  assumes "\<not> is_lead c" "\<not> is_trail c" "c < 65536"
  shows "scalar c" and "utf16_units c = [c]"
  using assms by (auto simp add: scalar_def is_lead_def is_trail_def utf16_units_def)

lemma to_scalars_wf:
  "wf16 s \<Longrightarrow> \<forall>c\<in>set s. c < 65536 \<Longrightarrow>
   (\<forall>cp\<in>set (to_scalars s). scalar cp) \<and> concat (map utf16_units (to_scalars s)) = s"
proof (induction s rule: to_scalars.induct)
  case 1
  then show ?case by simp
next
  case (2 c)
  then show ?case by (simp add: unit_scalar)
next
  case (3 c d r)
  show ?case
  proof (cases "is_lead c")
    case True
    then have "is_trail d" "wf16 r" using "3.prems"(1) by simp_all
    then show ?thesis using True "3.IH"(1) "3.prems"(2) by (simp add: pair_scalar)
  next
    case False
    then have "\<not> is_trail c" "wf16 (d # r)" using "3.prems"(1) by simp_all
    then show ?thesis using False "3.IH"(4) "3.prems"(2) by (simp add: unit_scalar)
  qed
qed

lemma utf8_decode_concat:
  "\<forall>cp\<in>set cps. scalar cp \<Longrightarrow>
   utf8_decode 0 0 0 128 191 (concat (map utf8_bytes cps)) = cps"
  by (induction cps) (simp_all add: utf8_decode_bytes)

lemma utf8_bytes_lt: "scalar cp \<Longrightarrow> \<forall>b\<in>set (utf8_bytes cp). b < 256"
proof -
  assume "scalar cp"
  then have cp: "cp < 1114112" by (simp add: scalar_def)
  have m: "cp mod 64 < 64" "cp div 64 mod 64 < 64" "cp div 4096 mod 64 < 64" by simp_all
  have "cp < 2048 \<Longrightarrow> cp div 64 < 32" "cp < 65536 \<Longrightarrow> cp div 4096 < 16" "cp div 262144 < 5"
    using cp by (simp_all add: less_mult_imp_div_less)
  then show ?thesis using m unfolding utf8_bytes_def by (auto simp del: mod_less_divisor)
qed

lemma map_unat_of_nat8:
  "\<forall>b\<in>set xs. b < 256 \<Longrightarrow> map unat (map of_nat xs :: bytes) = xs"
  by (induction xs) (auto simp add: unat_of_nat)

lemma strip_bom_to_scalars:
  "wf16 s \<Longrightarrow> (case s of [] \<Rightarrow> True | c # r \<Rightarrow> c \<noteq> 65279) \<Longrightarrow>
   strip_bom (to_scalars s) = to_scalars s"
  by (cases s rule: to_scalars.cases) (auto simp add: strip_bom_def is_lead_def is_trail_def)

lemma unat_char16_lt: "\<forall>c\<in>set (map unat (s :: jsstring)). c < 65536"
proof
  fix c assume "c \<in> set (map unat s)"
  then obtain w :: char16 where "c = unat w" by auto
  then show "c < 65536" using unsigned_less[of w, where 'a = nat] by simp
qed

lemma unat_eq_65279: "(unat (c :: char16) = 65279) = (c = 65279)"
proof
  assume "unat c = 65279"
  then have "of_nat (unat c) = (of_nat 65279 :: char16)" by simp
  then show "c = 65279" by simp
qed simp

lemma TextDecoder_TextEncoder:
  assumes "well_formed s" "\<not> starts_with_bom s"
  shows "TextDecoder_decode (TextEncoder_encode s) = s"
proof -
  let ?u = "map unat s"
  let ?cps = "to_scalars ?u"
  have wf: "wf16 ?u" using assms(1) by (simp add: well_formed_def)
  have sc: "\<forall>cp\<in>set ?cps. scalar cp" and units: "concat (map utf16_units ?cps) = ?u"
    using to_scalars_wf[OF wf unat_char16_lt] by simp_all
  have "\<forall>b\<in>set (concat (map utf8_bytes ?cps)). b < 256"
    using sc utf8_bytes_lt by auto
  then have bytes: "map unat (TextEncoder_encode s) = concat (map utf8_bytes ?cps)"
    unfolding TextEncoder_encode_def by (rule map_unat_of_nat8)
  have nb: "(case ?u of [] \<Rightarrow> True | c # r \<Rightarrow> c \<noteq> 65279)"
    using assms(2) by (cases s) (auto simp add: starts_with_bom_def unat_eq_65279)
  have "TextDecoder_decode (TextEncoder_encode s) = map of_nat ?u"
    unfolding TextDecoder_decode_def bytes
    by (simp only: utf8_decode_concat[OF sc] strip_bom_to_scalars[OF wf nb] units)
  then show ?thesis by (simp add: comp_def)
qed

section \<open>Properties of the crypto service\<close>

lemma rel_index_back: "rel_index len (- 16) = len - 16"
  unfolding rel_index_def by (simp add: max_def) linarith

lemma slice_front: "slice buf 0 (Some (- 16)) = take (length buf - 16) buf"
  by (simp add: slice_def Let_def rel_index_back) (simp add: rel_index_def)

lemma slice_back: "slice buf (- 16) None = drop (length buf - 16) buf"
  by (simp add: slice_def Let_def rel_index_back)

lemma slice_recompose: "slice buf 0 (Some (- 16)) @ slice buf (- 16) None = buf"
  by (simp add: slice_front slice_back)

lemma length_getRandomValues: "length (getRandomValues rnd n) = n"
  by (simp add: getRandomValues_def)

lemma encryptMessage_Inr:
  assumes "encrypt_AES_GCM W (getRandomValues rnd 12) k (TextEncoder_encode P) = Inr c"
  shows "encryptMessage W rnd P k =
         Inr \<lparr>ciphertext = base64 (slice c 0 (Some (- 16))),
              iv = base64 (getRandomValues rnd 12),
              authTag = base64 (slice c (- 16) None)\<rparr>"
  using assms by (simp add: encryptMessage_def Let_def arrayBufferToBase64_eq)

lemma encryptMessage_Inl:
  assumes "encrypt_AES_GCM W (getRandomValues rnd 12) k (TextEncoder_encode P) = Inl e"
  shows "encryptMessage W rnd P k = Inl e"
  using assms by (simp add: encryptMessage_def Let_def)

lemma decryptMessage_decoded:
  assumes "base64ToArrayBuffer (ciphertext env) = Inr c"
    and "base64ToArrayBuffer (iv env) = Inr i"
    and "base64ToArrayBuffer (authTag env) = Inr t"
  shows "decryptMessage W env k =
         (case decrypt_AES_GCM W i k (c @ t) of
            Inl e \<Rightarrow> Inl decrypt_error
          | Inr p \<Rightarrow> Inr (TextDecoder_decode p))"
  using assms by (simp add: decryptMessage_def decrypt_error_def split: sum.splits)


lemma key_byte_replicate: "0 < n \<Longrightarrow> key_byte (replicate n x) = x"
  by (cases n) (simp_all add: key_byte_def)

lemma toy_ecdh_ok: "ecdh_ok toy"
proof -
  have a: "unat (of_nat ((5 * unat a) mod 251) :: byte) = (5 * unat a) mod 251" for a :: byte
  proof -
    have "(5 * unat a) mod 251 < 256"
      using mod_less_divisor[of 251 "5 * unat a"] by linarith
    then show ?thesis by (simp add: unat_of_nat)
  qed
  have b: "(5 * unat b mod 251 * unat a) mod 251 = (5 * unat a mod 251 * unat b) mod 251"
    for a b :: byte
  proof -
    have "(5 * unat b mod 251 * unat a) mod 251 = (5 * unat b * unat a) mod 251"
      by (rule mod_mult_left_eq)
    moreover have "(5 * unat a mod 251 * unat b) mod 251 = (5 * unat a * unat b) mod 251"
      by (rule mod_mult_left_eq)
    ultimately show ?thesis by (simp add: mult.commute mult.left_commute)
  qed
  show ?thesis
    unfolding ecdh_ok_def toy_def by (simp add: a b)
qed

lemma toy_pkcs8_ok: "pkcs8_ok toy"
  by (simp add: pkcs8_ok_def toy_def)

lemma length_toy_tag: "length (toy_tag k i c) = 16"
  by (simp add: toy_tag_def)

lemma xor_twice: "(b XOR k) XOR k = (b :: byte)"
  by (simp add: xor.assoc)

lemma toy_decrypt_encrypt:
  "toy_encrypt i k p = Inr c \<Longrightarrow> length c = length p + 16 \<and> toy_decrypt i k c = Inr p"
  by (auto simp add: toy_encrypt_def toy_decrypt_def Let_def length_toy_tag xor_twice comp_def)

lemma toy_aead_ok: "aead_ok toy"
  unfolding aead_ok_def
proof (intro allI)
  fix i k p
  obtain c where c: "toy_encrypt i k p = Inr c" by (simp add: toy_encrypt_def Let_def)
  then show "\<exists>c. encrypt_AES_GCM toy i k p = Inr c \<and> length c = length p + 16
               \<and> decrypt_AES_GCM toy i k c = Inr p"
    using toy_decrypt_encrypt[OF c] by (simp add: toy_def)
qed

lemma xor_all_update:
  "n < length bs \<Longrightarrow> xor_all (bs[n := (bs ! n) XOR m]) = xor_all bs XOR m"
proof (induction bs arbitrary: n)
  case Nil
  then show ?case by simp
next
  case (Cons b bs)
  show ?case
  proof (cases n)
    case 0
    then show ?thesis by (simp add: xor_all_def xor.assoc xor.commute xor.left_commute)
  next
    case (Suc n')
    then have "xor_all (bs[n' := (bs ! n') XOR m]) = xor_all bs XOR m"
      using Cons by simp
    then show ?thesis using Suc by (simp add: xor_all_def xor.assoc)
  qed
qed

lemma bit_nonzero: "j < 8 \<Longrightarrow> push_bit j 1 \<noteq> (0 :: byte)"
proof
  assume j: "j < 8" and z: "push_bit j 1 = (0 :: byte)"
  have "bit (push_bit j 1 :: byte) j" using j by (simp add: bit_simps)
  moreover have "\<not> bit (0 :: byte) j" by simp
  ultimately show False using z by (simp only:)
qed

lemma xor_changes: "m \<noteq> 0 \<Longrightarrow> x XOR m \<noteq> (x :: byte)"
  by (metis xor.right_neutral xor.left_commute xor_self_eq xor.commute)

lemma xor_inj: "a XOR x = a XOR y \<Longrightarrow> x = (y :: byte)"
  by (metis xor.assoc xor_self_eq xor.left_neutral)

lemma toy_detects_flip:
  assumes c: "toy_encrypt i k p = Inr c" and n: "n < length c" and j: "j < 8"
  shows "toy_decrypt i k (flip_bit c n j) = Inl (DOMException ''OperationError'')"
proof -
  define c0 where "c0 = map (\<lambda>b. b XOR key_byte k) p"
  define m :: byte where "m = push_bit j 1"
  have m: "m \<noteq> 0" using j by (simp add: m_def bit_nonzero)
  have cc: "c = c0 @ toy_tag k i c0"
    using c by (simp add: toy_encrypt_def Let_def c0_def)
  show ?thesis
  proof (cases "n < length c0")
    case True
    have x: "flip_bit c n j = c0[n := (c0 ! n) XOR m] @ toy_tag k i c0"
      using True by (simp add: flip_bit_def cc list_update_append nth_append m_def)
    have "xor_all (c0[n := (c0 ! n) XOR m]) \<noteq> xor_all c0"
      using True m by (simp add: xor_all_update xor_changes)
    then have "toy_tag k i (c0[n := (c0 ! n) XOR m]) \<noteq> toy_tag k i c0"
      unfolding toy_tag_def by (metis xor_inj list.inject)
    then show ?thesis
      unfolding x by (simp add: toy_decrypt_def Let_def length_toy_tag)
  next
    case False
    define t where "t = toy_tag k i c0"
    define n' where "n' = n - length c0"
    have lt: "length t = 16" by (simp add: t_def length_toy_tag)
    have n': "n' < length t" using False n by (simp add: cc n'_def t_def)
    have x: "flip_bit c n j = c0 @ t[n' := (t ! n') XOR m]"
      using False by (simp add: flip_bit_def cc list_update_append nth_append m_def t_def n'_def)
    have "(t[n' := (t ! n') XOR m]) ! n' \<noteq> t ! n'"
      using n' m by (simp add: xor_changes)
    then have "t[n' := (t ! n') XOR m] \<noteq> t" by metis
    then show ?thesis
      unfolding x using lt by (simp add: toy_decrypt_def Let_def t_def[symmetric])
  qed
qed

lemma toy_aead_detects: "aead_detects toy"
  unfolding aead_detects_def using toy_detects_flip by (simp add: toy_def)

section \<open>The envelope: tampering and lengths\<close>

lemma encryptMessage_InrD:
  assumes "encryptMessage W rnd P k = Inr env"
  obtains c where "encrypt_AES_GCM W (getRandomValues rnd 12) k (TextEncoder_encode P) = Inr c"
    and "env = \<lparr>ciphertext = base64 (slice c 0 (Some (- 16))),
                iv = base64 (getRandomValues rnd 12),
                authTag = base64 (slice c (- 16) None)\<rparr>"
proof (cases "encrypt_AES_GCM W (getRandomValues rnd 12) k (TextEncoder_encode P)")
  case (Inl e)
  then show ?thesis using assms encryptMessage_Inl[OF Inl] by simp
next
  case (Inr c)
  then show ?thesis using assms encryptMessage_Inr[OF Inr] that by simp
qed

lemma flip_bit_append1:
  "n < length c \<Longrightarrow> flip_bit (c @ t) n j = flip_bit c n j @ t"
  by (simp add: flip_bit_def list_update_append nth_append)

lemma flip_bit_append2:
  "flip_bit (c @ t) (length c + n) j = c @ flip_bit t n j"
  by (simp add: flip_bit_def list_update_append nth_append)

text \<open>
  C2, as amended.  Take an envelope produced by \<open>encryptMessage\<close> under a key \<open>k\<close> and
  an envelope with the same IV field whose ciphertext and authTag fields decode to the
  original ciphertext bytes and tag bytes with one bit flipped in one of the two (the
  other unchanged).  On a platform whose AES-GCM rejects every single-bit change of
  its output, \<open>decryptMessage\<close> under \<open>k\<close> fails with the service's decryption error,
  so it returns no plaintext at all, in particular no wrong one.
\<close>

theorem tampered_envelope_rejected:
  assumes "aead_detects W"
    and "encryptMessage W rnd P k = Inr env"
    and "base64ToArrayBuffer (ciphertext env) = Inr c"
    and "base64ToArrayBuffer (authTag env) = Inr t"
    and "iv env' = iv env" and "j < 8"
    and "(n < length c \<and> base64ToArrayBuffer (ciphertext env') = Inr (flip_bit c n j)
            \<and> base64ToArrayBuffer (authTag env') = Inr t)
         \<or> (n < length t \<and> base64ToArrayBuffer (ciphertext env') = Inr c
            \<and> base64ToArrayBuffer (authTag env') = Inr (flip_bit t n j))"
  shows "decryptMessage W env' k = Inl decrypt_error"
proof -
  let ?i = "getRandomValues rnd 12"
  obtain cc where cc: "encrypt_AES_GCM W ?i k (TextEncoder_encode P) = Inr cc"
    and env: "env = \<lparr>ciphertext = base64 (slice cc 0 (Some (- 16))), iv = base64 ?i,
                      authTag = base64 (slice cc (- 16) None)\<rparr>"
    using assms(2) by (rule encryptMessage_InrD)
  have c: "c = slice cc 0 (Some (- 16))" and t: "t = slice cc (- 16) None"
    using assms(3,4) by (simp_all add: env base64ToArrayBuffer_base64)
  have ct: "c @ t = cc" by (simp add: c t slice_recompose)
  have i: "base64ToArrayBuffer (iv env') = Inr ?i"
    by (simp add: assms(5) env base64ToArrayBuffer_base64)
  obtain c' t' n' where c': "base64ToArrayBuffer (ciphertext env') = Inr c'"
    and t': "base64ToArrayBuffer (authTag env') = Inr t'"
    and fl: "c' @ t' = flip_bit cc n' j" and n': "n' < length cc"
  proof -
    from assms(7) show ?thesis
    proof
      assume a: "n < length c \<and> base64ToArrayBuffer (ciphertext env') = Inr (flip_bit c n j)
            \<and> base64ToArrayBuffer (authTag env') = Inr t"
      then have "flip_bit c n j @ t = flip_bit cc n j" "n < length cc"
        using ct flip_bit_append1[of n c t j] by auto
      then show ?thesis using a that by blast
    next
      assume a: "n < length t \<and> base64ToArrayBuffer (ciphertext env') = Inr c
            \<and> base64ToArrayBuffer (authTag env') = Inr (flip_bit t n j)"
      then have "c @ flip_bit t n j = flip_bit cc (length c + n) j" "length c + n < length cc"
        using ct flip_bit_append2[of c t n j] by auto
      then show ?thesis using a that by blast
    qed
  qed
  obtain e where "decrypt_AES_GCM W ?i k (flip_bit cc n' j) = Inl e"
    using assms(1) cc n' assms(6) unfolding aead_detects_def by blast
  then show ?thesis
    by (simp add: decryptMessage_decoded[OF c' i t'] fl)
qed


lemma encryptMessage_ok:
  assumes "aead_ok W"
  obtains c where "encrypt_AES_GCM W (getRandomValues rnd 12) k (TextEncoder_encode P) = Inr c"
    and "length c = length (TextEncoder_encode P) + 16"
    and "decrypt_AES_GCM W (getRandomValues rnd 12) k c = Inr (TextEncoder_encode P)"
    and "encryptMessage W rnd P k =
           Inr \<lparr>ciphertext = base64 (slice c 0 (Some (- 16))),
                iv = base64 (getRandomValues rnd 12),
                authTag = base64 (slice c (- 16) None)\<rparr>"
proof -
  obtain c where c: "encrypt_AES_GCM W (getRandomValues rnd 12) k (TextEncoder_encode P) = Inr c"
    "length c = length (TextEncoder_encode P) + 16"
    "decrypt_AES_GCM W (getRandomValues rnd 12) k c = Inr (TextEncoder_encode P)"
    using assms unfolding aead_ok_def by blast
  then show ?thesis using that encryptMessage_Inr[OF c(1)] by blast
qed

text \<open>
  C4, as amended.  \<open>encryptMessage\<close> always produces an IV of exactly 12 bytes and an
  authTag of exactly 16 bytes, the trailing 16 bytes of the primitive's output, the
  ciphertext field holding the rest.  \<open>decryptMessage\<close> checks no length: for every
  envelope whose three fields are valid base64, whatever the lengths of the decoded IV
  and tag, it hands the IV and ciphertext followed by tag to the AES-GCM primitive and
  returns the decoded plaintext when the primitive accepts, the service's decryption
  error otherwise.
\<close>

theorem envelope_lengths_and_unchecked_decrypt:
  assumes "aead_ok W"
    and "base64ToArrayBuffer (ciphertext e) = Inr cb"
    and "base64ToArrayBuffer (iv e) = Inr ib"
    and "base64ToArrayBuffer (authTag e) = Inr tb"
  shows "(\<exists>c env. encrypt_AES_GCM W (getRandomValues rnd 12) k (TextEncoder_encode P) = Inr c
            \<and> encryptMessage W rnd P k = Inr env
            \<and> base64ToArrayBuffer (iv env) = Inr (getRandomValues rnd 12)
            \<and> length (getRandomValues rnd 12) = 12
            \<and> base64ToArrayBuffer (authTag env) = Inr (drop (length c - 16) c)
            \<and> length (drop (length c - 16) c) = 16
            \<and> base64ToArrayBuffer (ciphertext env) = Inr (take (length c - 16) c))
         \<and> decryptMessage W e k' =
             (case decrypt_AES_GCM W ib k' (cb @ tb) of
                Inl err \<Rightarrow> Inl decrypt_error
              | Inr p \<Rightarrow> Inr (TextDecoder_decode p))"
proof -
  obtain c where c: "encrypt_AES_GCM W (getRandomValues rnd 12) k (TextEncoder_encode P) = Inr c"
    "length c = length (TextEncoder_encode P) + 16"
    and env: "encryptMessage W rnd P k =
           Inr \<lparr>ciphertext = base64 (slice c 0 (Some (- 16))),
                iv = base64 (getRandomValues rnd 12),
                authTag = base64 (slice c (- 16) None)\<rparr>"
    using encryptMessage_ok[OF assms(1)] by metis
  have "length (drop (length c - 16) c) = 16" using c(2) by simp
  then have first: "\<exists>c env. encrypt_AES_GCM W (getRandomValues rnd 12) k (TextEncoder_encode P) = Inr c
            \<and> encryptMessage W rnd P k = Inr env
            \<and> base64ToArrayBuffer (iv env) = Inr (getRandomValues rnd 12)
            \<and> length (getRandomValues rnd 12) = 12
            \<and> base64ToArrayBuffer (authTag env) = Inr (drop (length c - 16) c)
            \<and> length (drop (length c - 16) c) = 16
            \<and> base64ToArrayBuffer (ciphertext env) = Inr (take (length c - 16) c)"
    using c(1) env
    by (simp add: base64ToArrayBuffer_base64 slice_front slice_back length_getRandomValues)
  show ?thesis
    using first decryptMessage_decoded[OF assms(2,3,4), of W k'] by blast
qed

lemma iv0: "getRandomValues rnd0 12 = [0, 1, 2, 3, 4, 5, 6, 7, 8, 9, 10, 11]"
  by (simp add: getRandomValues_def rnd0_def upt_conv_Cons)

lemma enc_hi: "TextEncoder_encode (js ''hi'') = [104, 105]"
  by (simp add: TextEncoder_encode_def js_def is_lead_def is_trail_def utf8_bytes_def)

lemma dec_hi: "TextDecoder_decode [104, 105] = js ''hi''"
  by (simp add: TextDecoder_decode_def js_def strip_bom_def utf16_units_def)

lemma replicate_15: "replicate 15 x = [x, x, x, x, x, x, x, x, x, x, x, x, x, x, x]"
  by (simp add: numeral_eq_Suc)

lemma toy_cipher_hi:
  "encrypt_AES_GCM toy (getRandomValues rnd0 12) key_ab [104, 105] =
     Inr [1, 0, 104, 105, 105, 105, 105, 105, 105, 105, 105, 105, 105, 105, 105, 105, 105, 105]"
  by (simp add: toy_def toy_encrypt_def toy_tag_def key_ab_def key_byte_replicate xor_all_def iv0
      replicate_15)


lemmas b64_eval =
  base64ToArrayBuffer_def atob_def js_def strip_padding_def ascii_whitespace_def b64dec_def
  b64pad_def Let_def

lemma shifted_ciphertext: "base64ToArrayBuffer (ciphertext shifted_envelope) = Inr [1]"
  by (simp add: shifted_envelope_def b64_eval)

lemma shifted_iv:
  "base64ToArrayBuffer (iv shifted_envelope) = Inr [0, 1, 2, 3, 4, 5, 6, 7, 8, 9, 10, 11]"
  by (simp add: shifted_envelope_def b64_eval)

lemma shifted_authTag:
  "base64ToArrayBuffer (authTag shifted_envelope)
     = Inr [0, 104, 105, 105, 105, 105, 105, 105, 105, 105, 105, 105, 105, 105, 105, 105, 105]"
  by (simp add: shifted_envelope_def b64_eval)

lemma toy_decrypt_hi:
  "decrypt_AES_GCM toy [0, 1, 2, 3, 4, 5, 6, 7, 8, 9, 10, 11] key_ab
     [1, 0, 104, 105, 105, 105, 105, 105, 105, 105, 105, 105, 105, 105, 105, 105, 105, 105]
   = Inr [104, 105]"
  by (simp add: toy_def toy_decrypt_def toy_tag_def key_ab_def key_byte_replicate xor_all_def
      replicate_15)

text \<open>
  Counterexample to C4 as stated: an envelope whose authTag field holds 17 bytes (the
  last ciphertext byte moved in front of the tag) is not rejected; it decrypts.
\<close>

theorem long_authTag_accepted:
  "base64ToArrayBuffer (authTag shifted_envelope)
     = Inr [0, 104, 105, 105, 105, 105, 105, 105, 105, 105, 105, 105, 105, 105, 105, 105, 105]
   \<and> length [0, 104, 105, 105, 105, 105, 105, 105, 105, 105, 105, 105, 105, 105, 105, 105,
        105 :: byte] = 17
   \<and> decryptMessage toy shifted_envelope key_ab = Inr (js ''hi'')"
  by (simp add: shifted_authTag dec_hi toy_decrypt_hi
      decryptMessage_decoded[OF shifted_ciphertext shifted_iv shifted_authTag])

text \<open>The amended C4 at the envelope with the 17-byte tag, on the small platform.\<close>

theorem envelope_lengths_and_unchecked_decrypt_witness:
  "aead_ok toy
   \<and> base64ToArrayBuffer (ciphertext shifted_envelope) = Inr [1]
   \<and> base64ToArrayBuffer (iv shifted_envelope) = Inr [0, 1, 2, 3, 4, 5, 6, 7, 8, 9, 10, 11]
   \<and> base64ToArrayBuffer (authTag shifted_envelope)
       = Inr [0, 104, 105, 105, 105, 105, 105, 105, 105, 105, 105, 105, 105, 105, 105, 105, 105]
   \<and> (\<exists>c env. encrypt_AES_GCM toy (getRandomValues rnd0 12) key_ab (TextEncoder_encode (js ''hi''))
                 = Inr c
            \<and> encryptMessage toy rnd0 (js ''hi'') key_ab = Inr env
            \<and> base64ToArrayBuffer (iv env) = Inr (getRandomValues rnd0 12)
            \<and> length (getRandomValues rnd0 12) = 12
            \<and> base64ToArrayBuffer (authTag env) = Inr (drop (length c - 16) c)
            \<and> length (drop (length c - 16) c) = 16
            \<and> base64ToArrayBuffer (ciphertext env) = Inr (take (length c - 16) c))
   \<and> decryptMessage toy shifted_envelope key_ab = Inr (js ''hi'')"
proof -
  note th = envelope_lengths_and_unchecked_decrypt[OF toy_aead_ok shifted_ciphertext shifted_iv
      shifted_authTag, of rnd0 key_ab "js ''hi''" key_ab]
  have "decryptMessage toy shifted_envelope key_ab = Inr (js ''hi'')"
    using th by (simp add: toy_decrypt_hi dec_hi)
  then show ?thesis
    using th toy_aead_ok shifted_ciphertext shifted_iv shifted_authTag by blast
qed


lemmas base64_eval = base64_def js_def b64enc_def b64pad_def

lemma encrypt_hi: "encryptMessage toy rnd0 (js ''hi'') key_ab = Inr hi_envelope"
proof -
  have "encrypt_AES_GCM toy (getRandomValues rnd0 12) key_ab (TextEncoder_encode (js ''hi''))
     = Inr [1, 0, 104, 105, 105, 105, 105, 105, 105, 105, 105, 105, 105, 105, 105, 105, 105, 105]"
    by (simp only: enc_hi toy_cipher_hi)
  from encryptMessage_Inr[OF this] show ?thesis
    by (simp add: slice_front slice_back iv0 hi_envelope_def base64_eval)
qed

lemma hi_ciphertext: "base64ToArrayBuffer (ciphertext hi_envelope) = Inr [1, 0]"
  by (simp add: hi_envelope_def b64_eval)

lemma hi_authTag:
  "base64ToArrayBuffer (authTag hi_envelope)
     = Inr [104, 105, 105, 105, 105, 105, 105, 105, 105, 105, 105, 105, 105, 105, 105, 105]"
  by (simp add: hi_envelope_def b64_eval)

lemma tampered_ciphertext: "base64ToArrayBuffer (ciphertext tampered_envelope) = Inr [1, 0]"
  by (simp add: tampered_envelope_def b64_eval)

lemma tampered_authTag:
  "base64ToArrayBuffer (authTag tampered_envelope)
     = Inr (flip_bit [104, 105, 105, 105, 105, 105, 105, 105, 105, 105, 105, 105, 105, 105, 105, 105] 0 0)"
  by (simp add: tampered_envelope_def b64_eval flip_bit_def)

lemma absorbed_ciphertext: "base64ToArrayBuffer (ciphertext absorbed_envelope) = Inr [1, 0]"
  by (simp add: absorbed_envelope_def b64_eval)

lemma absorbed_iv:
  "base64ToArrayBuffer (iv absorbed_envelope) = Inr [0, 1, 2, 3, 4, 5, 6, 7, 8, 9, 10, 11]"
  by (simp add: absorbed_envelope_def b64_eval)

lemma absorbed_authTag:
  "base64ToArrayBuffer (authTag absorbed_envelope)
     = Inr [104, 105, 105, 105, 105, 105, 105, 105, 105, 105, 105, 105, 105, 105, 105, 105]"
  by (simp add: absorbed_envelope_def b64_eval)

lemma absorbed_flip:
  "authTag absorbed_envelope = (authTag hi_envelope)[21 := (authTag hi_envelope ! 21) XOR 2]"
  by (simp add: absorbed_envelope_def hi_envelope_def js_def)

lemma absorbed_differs: "authTag absorbed_envelope \<noteq> authTag hi_envelope"
  by (simp add: absorbed_envelope_def hi_envelope_def js_def)

text \<open>
  Counterexample to C2 as stated: on a platform whose AES-GCM rejects every single-bit
  change, flipping one bit of the authTag field of a produced envelope (the field is
  base64 text; the flipped bit turns the character \<open>Q\<close> before the padding into \<open>S\<close>)
  leaves the decoded tag as it was, since \<open>atob\<close> drops the low four bits of that
  character, and \<open>decryptMessage\<close> succeeds.
\<close>

theorem flipped_authTag_bit_accepted:
  "aead_detects toy
   \<and> encryptMessage toy rnd0 (js ''hi'') key_ab = Inr hi_envelope
   \<and> ciphertext absorbed_envelope = ciphertext hi_envelope
   \<and> iv absorbed_envelope = iv hi_envelope
   \<and> authTag absorbed_envelope = (authTag hi_envelope)[21 := (authTag hi_envelope ! 21) XOR 2]
   \<and> authTag absorbed_envelope \<noteq> authTag hi_envelope
   \<and> decryptMessage toy absorbed_envelope key_ab = Inr (js ''hi'')"
proof -
  have f: "ciphertext absorbed_envelope = ciphertext hi_envelope"
    "iv absorbed_envelope = iv hi_envelope"
    by (simp_all add: absorbed_envelope_def hi_envelope_def)
  have d: "decryptMessage toy absorbed_envelope key_ab = Inr (js ''hi'')"
    by (simp add: toy_decrypt_hi dec_hi
        decryptMessage_decoded[OF absorbed_ciphertext absorbed_iv absorbed_authTag])
  show ?thesis
    by (intro conjI toy_aead_detects encrypt_hi f absorbed_flip absorbed_differs d)
qed

text \<open>
  The amended C2 at a concrete envelope: the lowest bit of the first tag byte is
  flipped.
\<close>

theorem tampered_envelope_rejected_witness:
  "aead_detects toy
   \<and> encryptMessage toy rnd0 (js ''hi'') key_ab = Inr hi_envelope
   \<and> base64ToArrayBuffer (ciphertext hi_envelope) = Inr [1, 0]
   \<and> base64ToArrayBuffer (authTag hi_envelope)
       = Inr [104, 105, 105, 105, 105, 105, 105, 105, 105, 105, 105, 105, 105, 105, 105, 105]
   \<and> iv tampered_envelope = iv hi_envelope
   \<and> base64ToArrayBuffer (ciphertext tampered_envelope) = Inr [1, 0]
   \<and> base64ToArrayBuffer (authTag tampered_envelope)
       = Inr (flip_bit [104, 105, 105, 105, 105, 105, 105, 105, 105, 105, 105, 105, 105, 105, 105, 105] 0 0)
   \<and> decryptMessage toy tampered_envelope key_ab = Inl decrypt_error"
proof -
  have i: "iv tampered_envelope = iv hi_envelope"
    by (simp add: tampered_envelope_def hi_envelope_def)
  have "decryptMessage toy tampered_envelope key_ab = Inl decrypt_error"
    by (rule tampered_envelope_rejected[OF toy_aead_detects encrypt_hi hi_ciphertext hi_authTag i,
          of 0 0])
      (simp_all add: tampered_ciphertext tampered_authTag)
  then show ?thesis
    using toy_aead_detects encrypt_hi hi_ciphertext hi_authTag i tampered_ciphertext
      tampered_authTag by blast
qed

section \<open>Key agreement and round trip\<close>

lemma importPublicKey_base64: "importPublicKey W (base64 raw) = importKey_raw_ECDH W raw"
  by (simp add: importPublicKey_def base64ToArrayBuffer_base64)

lemma exportPublicKey_valid:
  assumes "keyPair s = Some \<lparr>privateKey = a, publicKey = Some pk\<rparr>"
    and "exportKey_raw W pk = Inr raw"
  shows "exportPublicKey W s = Inr (base64 raw)"
  using assms by (simp add: exportPublicKey_def arrayBufferToBase64_eq)

lemma deriveSharedKey_miss:
  assumes "keyPair s = Some kp" and "sharedKeys s uid = None"
    and "importPublicKey W pub = Inr opk"
    and "deriveBits_ECDH W opk (privateKey kp) = Inr secret"
    and "importKey_raw_AES_GCM W secret = Inr k"
  shows "deriveSharedKey W pub uid s = (Inr k, s\<lparr>sharedKeys := (sharedKeys s)(uid \<mapsto> k)\<rparr>)"
  using assms by (simp add: deriveSharedKey_def)


lemma encrypt_decrypt:
  assumes "aead_ok W" and "well_formed P" and "\<not> starts_with_bom P"
  obtains env where "encryptMessage W rnd P k = Inr env" and "decryptMessage W env k = Inr P"
proof -
  obtain c where c: "decrypt_AES_GCM W (getRandomValues rnd 12) k c = Inr (TextEncoder_encode P)"
    and env: "encryptMessage W rnd P k =
           Inr \<lparr>ciphertext = base64 (slice c 0 (Some (- 16))),
                iv = base64 (getRandomValues rnd 12),
                authTag = base64 (slice c (- 16) None)\<rparr>"
    using encryptMessage_ok[OF assms(1)] by metis
  let ?env = "\<lparr>ciphertext = base64 (slice c 0 (Some (- 16))),
                iv = base64 (getRandomValues rnd 12),
                authTag = base64 (slice c (- 16) None)\<rparr>"
  have "decryptMessage W ?env k = Inr P"
    by (simp add: decryptMessage_def base64ToArrayBuffer_base64 slice_recompose c
        TextDecoder_TextEncoder[OF assms(2,3)])
  then show ?thesis using env that by blast
qed

text \<open>
  C1, as amended.  Let A and B hold valid key pairs, neither service holding a cached
  key for the other's user id, on a platform whose ECDH and AES-GCM work as specified.
  For every well-formed plaintext \<open>P\<close> (no unpaired surrogate) that does not begin with
  U+FEFF: both sides derive the same shared key from the other's published key, and
  what A encrypts for B (\<open>deriveSharedKey\<close>, then \<open>encryptMessage\<close>) B decrypts to
  \<open>P\<close> (\<open>deriveSharedKey\<close>, then \<open>decryptMessage\<close>).
\<close>

theorem shared_key_round_trip:
  assumes "ecdh_ok W" and "aead_ok W"
    and "keyPair sA = Some \<lparr>privateKey = a, publicKey = Some (public_of W a)\<rparr>"
    and "keyPair sB = Some \<lparr>privateKey = b, publicKey = Some (public_of W b)\<rparr>"
    and "sharedKeys sA uidB = None" and "sharedKeys sB uidA = None"
    and "well_formed P" and "\<not> starts_with_bom P"
  shows "\<exists>pubA pubB k env sA' sB'.
           exportPublicKey W sA = Inr pubA \<and> exportPublicKey W sB = Inr pubB
         \<and> deriveSharedKey W pubB uidB sA = (Inr k, sA')
         \<and> deriveSharedKey W pubA uidA sB = (Inr k, sB')
         \<and> encryptMessage W rnd P k = Inr env \<and> decryptMessage W env k = Inr P
         \<and> encryptForUser W rnd P pubB uidB sA = (Inr env, sA')
         \<and> decryptFromUser W env pubA uidA sB = (Inr P, sB')"
proof -
  obtain rawA where rawA: "exportKey_raw W (public_of W a) = Inr rawA"
    "importKey_raw_ECDH W rawA = Inr (public_of W a)"
    using assms(1) unfolding ecdh_ok_def by blast
  obtain rawB where rawB: "exportKey_raw W (public_of W b) = Inr rawB"
    "importKey_raw_ECDH W rawB = Inr (public_of W b)"
    using assms(1) unfolding ecdh_ok_def by blast
  obtain secret k where sec: "deriveBits_ECDH W (public_of W b) a = Inr secret"
    "deriveBits_ECDH W (public_of W a) b = Inr secret" "importKey_raw_AES_GCM W secret = Inr k"
    using assms(1) unfolding ecdh_ok_def by blast
  have eA: "exportPublicKey W sA = Inr (base64 rawA)"
    using assms(3) rawA(1) by (rule exportPublicKey_valid)
  have eB: "exportPublicKey W sB = Inr (base64 rawB)"
    using assms(4) rawB(1) by (rule exportPublicKey_valid)
  have dA: "deriveSharedKey W (base64 rawB) uidB sA
              = (Inr k, sA\<lparr>sharedKeys := (sharedKeys sA)(uidB \<mapsto> k)\<rparr>)"
    using deriveSharedKey_miss[OF assms(3) assms(5), of W "base64 rawB" "public_of W b" secret k]
      rawB(2) sec(1,3)
    by (simp add: importPublicKey_base64)
  have dB: "deriveSharedKey W (base64 rawA) uidA sB
              = (Inr k, sB\<lparr>sharedKeys := (sharedKeys sB)(uidA \<mapsto> k)\<rparr>)"
    using deriveSharedKey_miss[OF assms(4) assms(6), of W "base64 rawA" "public_of W a" secret k]
      rawA(2) sec(2,3)
    by (simp add: importPublicKey_base64)
  obtain env where env: "encryptMessage W rnd P k = Inr env" "decryptMessage W env k = Inr P"
    using encrypt_decrypt[OF assms(2,7,8)] by blast
  have "encryptForUser W rnd P (base64 rawB) uidB sA
          = (Inr env, sA\<lparr>sharedKeys := (sharedKeys sA)(uidB \<mapsto> k)\<rparr>)"
    by (simp add: encryptForUser_def dA env)
  moreover have "decryptFromUser W env (base64 rawA) uidA sB
          = (Inr P, sB\<lparr>sharedKeys := (sharedKeys sB)(uidA \<mapsto> k)\<rparr>)"
    by (simp add: decryptFromUser_def dB env)
  ultimately show ?thesis using eA eB dA dB env by blast
qed


lemma toy_fields:
  "exportKey_raw toy pk = Inr [4, of_nat pk]"
  "exportKey_pkcs8 toy sk = Inr [sk]"
  "importKey_raw_ECDH toy [b, x] = (if b = 4 then Inr (unat x) else Inl (DOMException ''DataError''))"
  "importKey_pkcs8_ECDH toy [sk] = Inr sk"
  "importKey_raw_AES_GCM toy (replicate 32 y) = Inr (replicate 32 y)"
  "deriveBits_ECDH toy pk sk = Inr (replicate 32 (of_nat ((pk * unat sk) mod 251)))"
  "encrypt_AES_GCM toy = toy_encrypt"
  "decrypt_AES_GCM toy = toy_decrypt"
  "public_of toy sk = (5 * unat sk) mod 251"
  by (simp_all add: toy_def)

text \<open>Alice and Bob exchange published keys and derive the same key.\<close>

lemma alice_publishes: "exportPublicKey toy alice = Inr (js ''BA8='')"
  by (simp add: exportPublicKey_def alice_def toy_fields arrayBufferToBase64_eq base64_eval)

lemma bob_publishes: "exportPublicKey toy bob = Inr (js ''BCM='')"
  by (simp add: exportPublicKey_def bob_def toy_fields arrayBufferToBase64_eq base64_eval)

lemma import_alice: "importPublicKey toy (js ''BA8='') = Inr 15"
  by (simp add: importPublicKey_def b64_eval toy_fields)

lemma import_bob: "importPublicKey toy (js ''BCM='') = Inr 35"
  by (simp add: importPublicKey_def b64_eval toy_fields)

lemma alice_derives:
  "deriveSharedKey toy (js ''BCM='') (js ''bob'') alice
     = (Inr key_ab, alice\<lparr>sharedKeys := [js ''bob'' \<mapsto> key_ab]\<rparr>)"
proof -
  have "deriveSharedKey toy (js ''BCM='') (js ''bob'') alice
     = (Inr key_ab, alice\<lparr>sharedKeys := (sharedKeys alice)(js ''bob'' \<mapsto> key_ab)\<rparr>)"
    by (rule deriveSharedKey_miss[where kp = "\<lparr>privateKey = 3, publicKey = Some 15\<rparr>"
          and opk = 35 and secret = key_ab])
      (simp_all add: alice_def import_bob toy_fields key_ab_def)
  then show ?thesis by (simp add: alice_def)
qed

lemma bob_derives:
  "deriveSharedKey toy (js ''BA8='') (js ''alice'') bob
     = (Inr key_ab, bob\<lparr>sharedKeys := [js ''alice'' \<mapsto> key_ab]\<rparr>)"
proof -
  have "deriveSharedKey toy (js ''BA8='') (js ''alice'') bob
     = (Inr key_ab, bob\<lparr>sharedKeys := (sharedKeys bob)(js ''alice'' \<mapsto> key_ab)\<rparr>)"
    by (rule deriveSharedKey_miss[where kp = "\<lparr>privateKey = 7, publicKey = Some 35\<rparr>"
          and opk = 15 and secret = key_ab])
      (simp_all add: bob_def import_alice toy_fields key_ab_def)
  then show ?thesis by (simp add: bob_def)
qed

lemma enc_bom: "TextEncoder_encode [65279, 104, 105] = [239, 187, 191, 104, 105]"
  by (simp add: TextEncoder_encode_def is_lead_def is_trail_def utf8_bytes_def)

lemma dec_bom: "TextDecoder_decode [239, 187, 191, 104, 105] = [104, 105]"
  by (simp add: TextDecoder_decode_def strip_bom_def utf16_units_def)

lemma encrypt_bom: "encryptMessage toy rnd0 [65279, 104, 105] key_ab = Inr bom_envelope"
proof -
  have "encrypt_AES_GCM toy (getRandomValues rnd0 12) key_ab (TextEncoder_encode [65279, 104, 105])
     = Inr [134, 210, 214, 1, 0,
            234, 105, 105, 105, 105, 105, 105, 105, 105, 105, 105, 105, 105, 105, 105, 105]"
    by (simp add: enc_bom toy_fields toy_encrypt_def toy_tag_def key_ab_def key_byte_replicate
        xor_all_def iv0 replicate_15)
  from encryptMessage_Inr[OF this] show ?thesis
    by (simp add: slice_front slice_back iv0 bom_envelope_def base64_eval)
qed

lemma decrypt_bom: "decryptMessage toy bom_envelope key_ab = Inr [104, 105]"
proof -
  have c: "base64ToArrayBuffer (ciphertext bom_envelope) = Inr [134, 210, 214, 1, 0]"
    by (simp add: bom_envelope_def b64_eval)
  have i: "base64ToArrayBuffer (iv bom_envelope) = Inr [0, 1, 2, 3, 4, 5, 6, 7, 8, 9, 10, 11]"
    by (simp add: bom_envelope_def b64_eval)
  have t: "base64ToArrayBuffer (authTag bom_envelope)
      = Inr [234, 105, 105, 105, 105, 105, 105, 105, 105, 105, 105, 105, 105, 105, 105, 105]"
    by (simp add: bom_envelope_def b64_eval)
  have "decrypt_AES_GCM toy [0, 1, 2, 3, 4, 5, 6, 7, 8, 9, 10, 11] key_ab
     [134, 210, 214, 1, 0,
      234, 105, 105, 105, 105, 105, 105, 105, 105, 105, 105, 105, 105, 105, 105, 105]
     = Inr [239, 187, 191, 104, 105]"
    by (simp add: toy_fields toy_decrypt_def toy_tag_def key_ab_def key_byte_replicate xor_all_def
        replicate_15)
  then show ?thesis
    by (simp add: decryptMessage_decoded[OF c i t] dec_bom)
qed

lemma enc_surrogate: "TextEncoder_encode [55357] = [239, 191, 189]"
  by (simp add: TextEncoder_encode_def is_lead_def is_trail_def utf8_bytes_def)

lemma dec_surrogate: "TextDecoder_decode [239, 191, 189] = [65533]"
  by (simp add: TextDecoder_decode_def strip_bom_def utf16_units_def)

lemma encrypt_surrogate: "encryptMessage toy rnd0 [55357] key_ab = Inr surrogate_envelope"
proof -
  have "encrypt_AES_GCM toy (getRandomValues rnd0 12) key_ab (TextEncoder_encode [55357])
     = Inr [134, 214, 212,
            237, 105, 105, 105, 105, 105, 105, 105, 105, 105, 105, 105, 105, 105, 105, 105]"
    by (simp add: enc_surrogate toy_fields toy_encrypt_def toy_tag_def key_ab_def
        key_byte_replicate xor_all_def iv0 replicate_15)
  from encryptMessage_Inr[OF this] show ?thesis
    by (simp add: slice_front slice_back iv0 surrogate_envelope_def base64_eval)
qed

lemma decrypt_surrogate: "decryptMessage toy surrogate_envelope key_ab = Inr [65533]"
proof -
  have c: "base64ToArrayBuffer (ciphertext surrogate_envelope) = Inr [134, 214, 212]"
    by (simp add: surrogate_envelope_def b64_eval)
  have i: "base64ToArrayBuffer (iv surrogate_envelope)
      = Inr [0, 1, 2, 3, 4, 5, 6, 7, 8, 9, 10, 11]"
    by (simp add: surrogate_envelope_def b64_eval)
  have t: "base64ToArrayBuffer (authTag surrogate_envelope)
      = Inr [237, 105, 105, 105, 105, 105, 105, 105, 105, 105, 105, 105, 105, 105, 105, 105]"
    by (simp add: surrogate_envelope_def b64_eval)
  have "decrypt_AES_GCM toy [0, 1, 2, 3, 4, 5, 6, 7, 8, 9, 10, 11] key_ab
     [134, 214, 212,
      237, 105, 105, 105, 105, 105, 105, 105, 105, 105, 105, 105, 105, 105, 105, 105]
     = Inr [239, 191, 189]"
    by (simp add: toy_fields toy_decrypt_def toy_tag_def key_ab_def key_byte_replicate xor_all_def
        replicate_15)
  then show ?thesis
    by (simp add: decryptMessage_decoded[OF c i t] dec_surrogate)
qed

text \<open>
  Counterexample to C1 as stated: the plaintext U+FEFF \<open>h\<close> \<open>i\<close>, encrypted by Alice for
  Bob, is decrypted by Bob to \<open>hi\<close>: the decoder drops the leading U+FEFF.  And the
  plaintext that is the single unpaired surrogate U+D83D comes back as U+FFFD.
\<close>

theorem plaintext_not_recovered:
  "exportPublicKey toy alice = Inr (js ''BA8='')
   \<and> exportPublicKey toy bob = Inr (js ''BCM='')
   \<and> encryptForUser toy rnd0 [65279, 104, 105] (js ''BCM='') (js ''bob'') alice
       = (Inr bom_envelope, alice\<lparr>sharedKeys := [js ''bob'' \<mapsto> key_ab]\<rparr>)
   \<and> decryptFromUser toy bom_envelope (js ''BA8='') (js ''alice'') bob
       = (Inr [104, 105], bob\<lparr>sharedKeys := [js ''alice'' \<mapsto> key_ab]\<rparr>)
   \<and> encryptForUser toy rnd0 [55357] (js ''BCM='') (js ''bob'') alice
       = (Inr surrogate_envelope, alice\<lparr>sharedKeys := [js ''bob'' \<mapsto> key_ab]\<rparr>)
   \<and> decryptFromUser toy surrogate_envelope (js ''BA8='') (js ''alice'') bob
       = (Inr [65533], bob\<lparr>sharedKeys := [js ''alice'' \<mapsto> key_ab]\<rparr>)"
  by (simp add: alice_publishes bob_publishes encryptForUser_def decryptFromUser_def
      alice_derives bob_derives encrypt_bom decrypt_bom encrypt_surrogate decrypt_surrogate)

lemma hi_well_formed: "well_formed (js ''hi'') \<and> \<not> starts_with_bom (js ''hi'')"
  by (simp add: well_formed_def starts_with_bom_def js_def is_lead_def is_trail_def)

text \<open>The amended C1 for Alice, Bob and the plaintext \<open>hi\<close>.\<close>

theorem shared_key_round_trip_witness:
  "ecdh_ok toy \<and> aead_ok toy
   \<and> keyPair alice = Some \<lparr>privateKey = 3, publicKey = Some (public_of toy 3)\<rparr>
   \<and> keyPair bob = Some \<lparr>privateKey = 7, publicKey = Some (public_of toy 7)\<rparr>
   \<and> sharedKeys alice (js ''bob'') = None \<and> sharedKeys bob (js ''alice'') = None
   \<and> well_formed (js ''hi'') \<and> \<not> starts_with_bom (js ''hi'')
   \<and> (\<exists>pubA pubB k env sA' sB'.
           exportPublicKey toy alice = Inr pubA \<and> exportPublicKey toy bob = Inr pubB
         \<and> deriveSharedKey toy pubB (js ''bob'') alice = (Inr k, sA')
         \<and> deriveSharedKey toy pubA (js ''alice'') bob = (Inr k, sB')
         \<and> encryptMessage toy rnd0 (js ''hi'') k = Inr env
         \<and> decryptMessage toy env k = Inr (js ''hi'')
         \<and> encryptForUser toy rnd0 (js ''hi'') pubB (js ''bob'') alice = (Inr env, sA')
         \<and> decryptFromUser toy env pubA (js ''alice'') bob = (Inr (js ''hi''), sB'))"
proof -
  have a: "keyPair alice = Some \<lparr>privateKey = 3, publicKey = Some (public_of toy 3)\<rparr>"
    by (simp add: alice_def toy_fields)
  have b: "keyPair bob = Some \<lparr>privateKey = 7, publicKey = Some (public_of toy 7)\<rparr>"
    by (simp add: bob_def toy_fields)
  have ca: "sharedKeys alice (js ''bob'') = None" by (simp add: alice_def)
  have cb: "sharedKeys bob (js ''alice'') = None" by (simp add: bob_def)
  note w = hi_well_formed[THEN conjunct1] hi_well_formed[THEN conjunct2]
  note th = shared_key_round_trip[OF toy_ecdh_ok toy_aead_ok a b ca cb w, of rnd0]
  show ?thesis using toy_ecdh_ok toy_aead_ok a b ca cb w th by blast
qed

section \<open>Persistence and the shared-key cache\<close>

lemma bindE_Inr_iff: "(bindE m f = Inr y) = (\<exists>x. m = Inr x \<and> f x = Inr y)"
  by (cases m) auto

lemma base64_Nil: "(base64 buf = []) = (buf = [])"
  by (simp add: base64_def btoa_groups_Nil)

lemma savePrivateKey_ok:
  assumes "keyPair s = Some kp" and "exportKey_pkcs8 W (privateKey kp) = Inr der"
    and "writable ls"
  shows "savePrivateKey W uid s ls
           = Inr (ls\<lparr>items := (items ls)(js ''privateKey_'' @ uid \<mapsto> base64 der)\<rparr>)"
  using assms by (simp add: savePrivateKey_def arrayBufferToBase64_eq setItem_def)

lemma savePrivateKey_total: "\<exists>ls'. savePrivateKey W uid s ls = Inr ls'"
  by (simp add: savePrivateKey_def split: sum.splits)

lemma loadPrivateKey_ok:
  assumes "readable ls" and "items ls (js ''privateKey_'' @ uid) = Some (base64 der)"
    and "der \<noteq> []" and "importKey_pkcs8_ECDH W der = Inr sk"
  shows "loadPrivateKey W uid s ls
           = (Inr True, s\<lparr>keyPair := Some \<lparr>privateKey = sk, publicKey = None\<rparr>\<rparr>)"
  using assms
  by (simp add: loadPrivateKey_def getItem_def base64_Nil base64ToArrayBuffer_base64)

lemma loadPrivateKey_total: "\<exists>r s'. loadPrivateKey W uid s ls = (Inr r, s')"
  by (auto simp add: loadPrivateKey_def split: sum.splits option.splits)

lemma save_then_load:
  assumes "pkcs8_ok W" and "keyPair s = Some kp" and "writable ls" and "readable ls"
  obtains ls' where "savePrivateKey W uid s ls = Inr ls'"
    and "\<And>s0. loadPrivateKey W uid s0 ls'
            = (Inr True, s0\<lparr>keyPair := Some \<lparr>privateKey = privateKey kp, publicKey = None\<rparr>\<rparr>)"
proof -
  obtain der where der: "der \<noteq> []" "exportKey_pkcs8 W (privateKey kp) = Inr der"
    "importKey_pkcs8_ECDH W der = Inr (privateKey kp)"
    using assms(1) unfolding pkcs8_ok_def by blast
  let ?ls = "ls\<lparr>items := (items ls)(js ''privateKey_'' @ uid \<mapsto> base64 der)\<rparr>"
  have "savePrivateKey W uid s ls = Inr ?ls"
    using assms(2) der(2) assms(3) by (rule savePrivateKey_ok)
  moreover have "loadPrivateKey W uid s0 ?ls
            = (Inr True, s0\<lparr>keyPair := Some \<lparr>privateKey = privateKey kp, publicKey = None\<rparr>\<rparr>)"
    for s0 :: "('a, 'b, 'c) CryptoService"
    by (rule loadPrivateKey_ok[where der = der]) (simp_all add: assms(4) der)
  ultimately show ?thesis using that by blast
qed

text \<open>
  C3 fails on the code.  After \<open>savePrivateKey\<close> and \<open>loadPrivateKey\<close> for the same
  owner (storage readable and writable, PKCS#8 export and import working), the reload
  succeeds, but the key pair it installs has no public half, and \<open>exportPublicKey\<close>
  throws instead of returning the bytes exported before.
\<close>

theorem reload_leaves_public_key_unset:
  assumes "pkcs8_ok W" and "keyPair s = Some kp" and "writable ls" and "readable ls"
  shows "\<exists>ls' s'. savePrivateKey W uid s ls = Inr ls'
           \<and> loadPrivateKey W uid s ls' = (Inr True, s')
           \<and> keyPair s' = Some \<lparr>privateKey = privateKey kp, publicKey = None\<rparr>
           \<and> exportPublicKey W s' = Inl TypeError"
proof -
  obtain ls' where a: "savePrivateKey W uid s ls = Inr ls'"
    and b: "loadPrivateKey W uid s ls'
            = (Inr True, s\<lparr>keyPair := Some \<lparr>privateKey = privateKey kp, publicKey = None\<rparr>\<rparr>)"
    using save_then_load[OF assms] by metis
  let ?s = "s\<lparr>keyPair := Some \<lparr>privateKey = privateKey kp, publicKey = None\<rparr>\<rparr>"
  have "exportPublicKey W ?s = Inl TypeError"
    by (simp add: exportPublicKey_def)
  then show ?thesis using a b by auto
qed

text \<open>
  C8, as amended.  \<open>savePrivateKey\<close> never throws: when storing fails it completes
  normally and leaves the storage as it was.  \<open>loadPrivateKey\<close> never throws either:
  it answers \<open>false\<close> when no key is stored for the owner and also when the storage
  cannot be read or the stored key cannot be imported.
\<close>

theorem storage_failures_swallowed:
  "savePrivateKey W uid s (ls\<lparr>writable := False\<rparr>) = Inr (ls\<lparr>writable := False\<rparr>)
   \<and> loadPrivateKey W uid s (ls\<lparr>readable := False\<rparr>) = (Inr False, s)
   \<and> loadPrivateKey W uid s
        (ls\<lparr>readable := True, items := (items ls)(js ''privateKey_'' @ uid := None)\<rparr>)
        = (Inr False, s)
   \<and> savePrivateKey (W\<lparr>exportKey_pkcs8 := (\<lambda>sk. Inl e)\<rparr>) uid s ls = Inr ls
   \<and> loadPrivateKey (W\<lparr>importKey_pkcs8_ECDH := (\<lambda>der. Inl e)\<rparr>) uid s ls = (Inr False, s)
   \<and> (\<exists>ls'. savePrivateKey W uid s ls = Inr ls')
   \<and> (\<exists>r s'. loadPrivateKey W uid s ls = (Inr r, s'))"
proof -
  have "savePrivateKey (W\<lparr>exportKey_pkcs8 := (\<lambda>sk. Inl e)\<rparr>) uid s ls = Inr ls"
    by (simp add: savePrivateKey_def split: sum.splits option.splits)
  moreover have "loadPrivateKey (W\<lparr>importKey_pkcs8_ECDH := (\<lambda>der. Inl e)\<rparr>) uid s ls
      = (Inr False, s)"
    by (auto simp add: loadPrivateKey_def bindE_Inr_iff split: sum.splits option.splits)
  moreover
  have "savePrivateKey W uid s (ls\<lparr>writable := False\<rparr>) = Inr (ls\<lparr>writable := False\<rparr>)"
    by (auto simp add: savePrivateKey_def setItem_def bindE_Inr_iff arrayBufferToBase64_eq
        split: sum.splits option.splits)
  moreover have "loadPrivateKey W uid s (ls\<lparr>readable := False\<rparr>) = (Inr False, s)"
    by (simp add: loadPrivateKey_def getItem_def)
  moreover have "loadPrivateKey W uid s
        (ls\<lparr>readable := True, items := (items ls)(js ''privateKey_'' @ uid := None)\<rparr>)
        = (Inr False, s)"
    by (simp add: loadPrivateKey_def getItem_def)
  ultimately show ?thesis using savePrivateKey_total loadPrivateKey_total by blast
qed


text \<open>C3 at Alice's key pair: she could export her public key before the reload.\<close>

theorem reload_leaves_public_key_unset_witness:
  "pkcs8_ok toy \<and> keyPair alice = Some \<lparr>privateKey = 3, publicKey = Some 15\<rparr>
   \<and> writable empty_storage \<and> readable empty_storage
   \<and> exportPublicKey toy alice = Inr (js ''BA8='')
   \<and> (\<exists>ls' s'. savePrivateKey toy (js ''u1'') alice empty_storage = Inr ls'
           \<and> loadPrivateKey toy (js ''u1'') alice ls' = (Inr True, s')
           \<and> keyPair s' = Some \<lparr>privateKey = 3, publicKey = None\<rparr>
           \<and> exportPublicKey toy s' = Inl TypeError)"
proof -
  have k: "keyPair alice = Some \<lparr>privateKey = 3, publicKey = Some 15\<rparr>"
    by (simp add: alice_def)
  have w: "writable empty_storage" and r: "readable empty_storage"
    by (simp_all add: empty_storage_def)
  show ?thesis
    using reload_leaves_public_key_unset[OF toy_pkcs8_ok k w r, of "js ''u1''"]
      toy_pkcs8_ok k w r alice_publishes
    by simp
qed

text \<open>
  Counterexample to C8 as stated: saving to a storage that refuses writes completes
  without error and stores nothing; loading from a storage that holds the key but
  refuses reads answers \<open>false\<close>, the indicator of an absent key.
\<close>

theorem storage_failure_not_reported:
  "savePrivateKey toy (js ''u1'') alice full_storage = Inr full_storage
   \<and> items full_storage (js ''privateKey_u1'') = None
   \<and> items locked_storage (js ''privateKey_u1'') = Some (js ''Aw=='')
   \<and> loadPrivateKey toy (js ''u1'') alice locked_storage = (Inr False, alice)"
  by (simp add: savePrivateKey_def setItem_def loadPrivateKey_def getItem_def alice_def
      full_storage_def locked_storage_def toy_fields arrayBufferToBase64_eq)












section \<open>The provider's decrypt and the send path\<close>

text \<open>
  C5, as amended.  When the provider is initialized, its \<open>decryptMessage\<close> never
  throws: it returns the decrypted text, or the fixed placeholder string whenever the
  key fetch, the key derivation or the decryption fails.  When the provider is not
  initialized, it throws \<open>Crypto not initialized\<close> to its caller.
\<close>

theorem provider_decrypt_outcomes:
  "CryptoProvider_decryptMessage W dir False env sid s
     = (Inl (Error ''Crypto not initialized''), s)
   \<and> (\<exists>t s'. CryptoProvider_decryptMessage W dir True env sid s = (Inr t, s'))
   \<and> fst (CryptoProvider_decryptMessage W dir True env sid s)
       = Inr (case getUserPublicKey dir sid of
                Inl e \<Rightarrow> decryption_failed
              | Inr pk \<Rightarrow>
                  (case fst (decryptFromUser W env pk sid s) of
                     Inl e \<Rightarrow> decryption_failed
                   | Inr t \<Rightarrow> t))"
  by (auto simp add: CryptoProvider_decryptMessage_def split: sum.splits prod.splits)

text \<open>
  Counterexample to C5 as stated: with the provider not initialized, the call ends in
  an error, not in the placeholder.
\<close>

theorem provider_decrypt_throws_uninitialized:
  "CryptoProvider_decryptMessage toy directory0 False hi_envelope (js ''bob'') alice
     = (Inl (Error ''Crypto not initialized''), alice)"
  by (simp add: CryptoProvider_decryptMessage_def)

text \<open>
  C10.  In \<open>handleSend\<close>, once the message is to be sent (non-empty after trimming, a
  conversation selected, connected, not a group): when the crypto engine is not
  initialized, or the encryption attempt throws, the payload handed to \<open>sendMessage\<close>
  has \<open>isEncrypted\<close> false, no encryption fields, and the plaintext (the trimmed message
  text, which is what was to be encrypted) in its text field.
\<close>

theorem send_falls_back_to_plaintext:
  assumes "trim messageText \<noteq> []" and "truthy activeId" and "isConnected"
    and "\<not> activeGroup"
    and "\<not> isCryptoInitialized
         \<or> fst (CryptoProvider_encryptMessage W rnd dir isCryptoInitialized (trim messageText)
                  (recipient activeContact) s) = Inl e"
  shows "fst (handleSend W rnd dir messageText activeId isConnected activeGroup
                isCryptoInitialized activeContact uid s)
         = Some \<lparr>conversationId = activeId, msg_text = trim messageText, encryptedData = None,
                  msg_iv = None, msg_authTag = None, isEncrypted = False, senderId = uid\<rparr>"
  using assms
  by (auto simp add: handleSend_def canEncrypt_def plain_payload_def split: sum.splits prod.splits)

lemma trim_hi: "trim (js '' hi '') = js ''hi''"
  by (simp add: trim_def js_def js_whitespace_def)

text \<open>C10 for a recipient who has published no key: the encryption attempt throws.\<close>

theorem send_falls_back_to_plaintext_witness:
  "trim (js '' hi '') \<noteq> [] \<and> truthy (Some (js ''c1'')) \<and> True \<and> \<not> False
   \<and> fst (CryptoProvider_encryptMessage toy rnd0 directory0 True (trim (js '' hi ''))
            (recipient dave) alice) = Inl (Error ''User has not set up encryption yet'')
   \<and> fst (handleSend toy rnd0 directory0 (js '' hi '') (Some (js ''c1'')) True False True dave
            (Some (js ''alice'')) alice)
       = Some \<lparr>conversationId = Some (js ''c1''), msg_text = trim (js '' hi ''),
                encryptedData = None, msg_iv = None, msg_authTag = None, isEncrypted = False,
                senderId = Some (js ''alice'')\<rparr>
   \<and> trim (js '' hi '') = js ''hi''"
proof -
  have t: "trim (js '' hi '') \<noteq> []" unfolding trim_hi by (simp add: js_def)
  have a: "truthy (Some (js ''c1''))" by (simp add: truthy_def js_def)
  have e: "fst (CryptoProvider_encryptMessage toy rnd0 directory0 True (trim (js '' hi ''))
            (recipient dave) alice) = Inl (Error ''User has not set up encryption yet'')"
    by (simp add: CryptoProvider_encryptMessage_def getUserPublicKey_def directory0_def
        recipient_def dave_def js_def)
  have "\<not> True \<or> fst (CryptoProvider_encryptMessage toy rnd0 directory0 True (trim (js '' hi ''))
            (recipient dave) alice) = Inl (Error ''User has not set up encryption yet'')"
    using e by simp
  note th = send_falls_back_to_plaintext[OF t a TrueI not_False_eq_True[THEN iffD2] this,
      where uid = "Some (js ''alice'')"]
  show ?thesis using t a e th trim_hi by simp
qed

section \<open>Concurrent cache misses\<close>






























section \<open>Clearing the keys\<close>

text \<open>
  C9.  \<open>clearKeys\<close> discards the identity key pair and empties the shared-key cache.
  In the state it leaves, \<open>exportPublicKey\<close>, \<open>deriveSharedKey\<close>, \<open>encryptForUser\<close>
  and \<open>decryptFromUser\<close> all fail with the service's not-initialized error, and the
  failing calls return that same state, so they keep failing until \<open>initialize\<close> (or a
  reload) stores a key pair.  The service has one \<open>keyPair\<close> slot: a successful
  \<open>initialize\<close> overwrites whatever pair was there.
\<close>

theorem clearKeys_not_initialized:
  "keyPair (clearKeys s) = None
   \<and> sharedKeys (clearKeys s) = Map.empty
   \<and> isInitialized (clearKeys s) = False
   \<and> exportPublicKey W (clearKeys s)
       = Inl (Error ''Crypto not initialized. Call initialize() first.'')
   \<and> deriveSharedKey W pub uid (clearKeys s)
       = (Inl (Error ''Crypto not initialized''), clearKeys s)
   \<and> encryptForUser W rnd plaintext pub uid (clearKeys s)
       = (Inl (Error ''Crypto not initialized''), clearKeys s)
   \<and> decryptFromUser W env pub uid (clearKeys s)
       = (Inl (Error ''Crypto not initialized''), clearKeys s)
   \<and> keyPair (snd (initialize (Inr (sk, pk)) s))
       = Some \<lparr>privateKey = sk, publicKey = Some pk\<rparr>"
  by (simp add: clearKeys_def isInitialized_def exportPublicKey_def deriveSharedKey_def
      encryptForUser_def decryptFromUser_def initialize_def)

end
